theory Spec2Isabelle
  imports Main "HOL-Library.Word"
begin

unbundle bit_operations_syntax

section \<open>The per-peer stream of net/stream.go\<close>

text \<open>
  The embedding follows \<^verbatim>\<open>net/stream.go\<close> function by function. A \<^verbatim>\<open>Stream\<close> is a
  record; the buffered channels are their contents (a counter where every element sent
  is the same constant, a list for the message queues) with the capacities given by
  \<^verbatim>\<open>newStreamInstance\<close>; every call on a collaborator (stream manager, route table,
  net service, transport) is appended to a trace. A call that cannot proceed in the
  current state (a send on a full channel, a receive on an empty one, the mutex held)
  is the result \<open>Blocked\<close>; the send on the handshake barrier, whose outcome the
  handshake properties depend on, is followed further: the goroutine is \<open>Parked\<close> in the
  channel's send queue, with what it goes on to do once a receiver has taken its value.
  Logging, metrics and the three timestamps are left out: nothing reads them back.
\<close>

subsection \<open>Constants\<close>

type_synonym bytes = "8 word list"

definition ClientVersion :: string where
  "ClientVersion = ''0.3.0''"

definition HELLO :: string where
  "HELLO = ''hello''"

definition OK :: string where
  "OK = ''ok''"

definition BYE :: string where
  "BYE = ''bye''"

definition SYNCROUTE :: string where
  "SYNCROUTE = ''syncroute''"

definition ROUTETABLE :: string where
  "ROUTETABLE = ''routetable''"

datatype status = streamStatusInit | streamStatusHandshakeSucceed | streamStatusClosed

datatype error =
    ErrShouldCloseConnectionAndExitLoop
  | ErrStreamIsNotConnected
  | ErrUncompressMessageFailed
  | ErrCollaborator \<comment> \<open>an error value handed back by a collaborator
      (transport, proto.Marshal, NewNebMessage)\<close>

text \<open>
  Modelled from the spec: the priority constants \<^verbatim>\<open>MessagePriorityHigh\<close>,
  \<^verbatim>\<open>MessagePriorityNormal\<close>, \<^verbatim>\<open>MessagePriorityLow\<close> are declared outside
  \<^verbatim>\<open>stream.go\<close>; the spec enumerates them in this order. \<^verbatim>\<open>SendMessage\<close> takes the
  priority as an \<^verbatim>\<open>int\<close>.
\<close>

definition MessagePriorityHigh :: int where
  "MessagePriorityHigh = 0"

definition MessagePriorityNormal :: int where
  "MessagePriorityNormal = 1"


subsection \<open>Data\<close>

text \<open>
  A \<^verbatim>\<open>NebMessage\<close> as the stream reads it through its accessors: \<^verbatim>\<open>MessageName()\<close>,
  \<^verbatim>\<open>Reserved()[0]\<close>, \<^verbatim>\<open>Data()\<close> and \<^verbatim>\<open>Content()\<close> (the whole frame).
\<close>

record NebMessage =
  MessageName :: string
  Reserved0 :: "8 word"
  Data :: bytes
  Content :: bytes

text \<open>The calls the stream makes on its collaborators and the signals it sends.\<close>

datatype action =
    RemoveStream
  | RemovePeerStream
  | AddPeerStream
  | AddPeers "(string \<times> string list) list"
  | PutMessage string string bytes
  | RecordRecvMessage "32 word"
  | SetWriteDeadline "64 word" \<comment> \<open>the duration added to time.Now(), in nanoseconds\<close>
  | TransportWrite bytes
  | TransportClose
  | QuitSignal \<comment> \<open>\<^verbatim>\<open>s.quitWriteCh <- true\<close> went through\<close>
  | HandshakeSignal \<comment> \<open>\<^verbatim>\<open>s.handshakeSucceedCh <- true\<close> went through\<close>

text \<open>
  How the transport answers one \<^verbatim>\<open>Write\<close> of the stream: both calls succeed,
  \<^verbatim>\<open>SetWriteDeadline\<close> fails, or \<^verbatim>\<open>stream.Write\<close> fails. An attached transport is the
  list of its answers to the writes still to come; past the end of the list it succeeds.
\<close>

datatype io = IoOk | IoDeadlineErr | IoWriteErr

record Stream =
  locked :: bool \<comment> \<open>syncMutex is held\<close>
  pid_String :: string \<comment> \<open>s.pid.String()\<close>
  pid_Pretty :: string \<comment> \<open>s.pid.Pretty()\<close>
  stream :: "io list option" \<comment> \<open>None is nil\<close>
  handshakeSucceedCh :: nat \<comment> \<open>capacity 1\<close>
  handshakeSucceedCh_sendq :: nat \<comment> \<open>goroutines parked in a send on handshakeSucceedCh\<close>
  messageNotifChan :: nat \<comment> \<open>capacity 6*1024\<close>
  highPriorityMessageChan :: "NebMessage list" \<comment> \<open>capacity 2*1024\<close>
  normalPriorityMessageChan :: "NebMessage list" \<comment> \<open>capacity 2*1024\<close>
  lowPriorityMessageChan :: "NebMessage list" \<comment> \<open>capacity 2*1024\<close>
  quitWriteCh :: nat \<comment> \<open>capacity 1\<close>
  status :: status
  msgCount :: "string \<rightharpoonup> int"
  compressFlag :: "string \<rightharpoonup> 8 word"
  trace :: "action list"

text \<open>
  What the functions of \<^verbatim>\<open>stream.go\<close> call outside the file, as parameters: the frame
  constructor \<^verbatim>\<open>NewNebMessage(s, DefaultReserved, 0, name, data)\<close>, the protobuf
  encoders applied to the messages \<^verbatim>\<open>Hello()\<close>, \<^verbatim>\<open>Ok()\<close> and \<^verbatim>\<open>RouteTable()\<close> build,
  the protobuf decoders, \<^verbatim>\<open>snappy.Decode\<close> and \<^verbatim>\<open>crc32.ChecksumIEEE\<close>. \<open>None\<close> is a
  returned error.
\<close>

record env =
  NewNebMessage :: "string \<Rightarrow> bytes \<Rightarrow> NebMessage option"
  Marshal_Hello :: "bytes option"
  Marshal_OK :: "bytes option"
  Marshal_Peers :: "bytes option"
  HelloMessageFromProto :: "bytes \<Rightarrow> (string \<times> string) option"
  OKMessageFromProto :: "bytes \<Rightarrow> (string \<times> string) option"
  Unmarshal_Peers :: "bytes \<Rightarrow> (string \<times> string list) list option"
  snappy_Decode :: "bytes \<Rightarrow> bytes option"
  ChecksumIEEE :: "bytes \<Rightarrow> 32 word"

text \<open>
  The outcome of a call: it returned, it waits where the model follows it no further, or
  it is parked in the send on the handshake barrier. \<open>Parked s k\<close> has the state \<open>s\<close> in
  which the goroutine went to sleep and the rest \<open>k\<close> of the call, to be run on the state
  the stream is in when the goroutine has been woken.
\<close>

datatype 'a res = Ret 'a Stream | Blocked Stream | Parked Stream "Stream \<Rightarrow> 'a res"

text \<open>Sequencing: what follows a call runs when the call has returned.\<close>

primrec and_then :: "'a res \<Rightarrow> ('a \<Rightarrow> Stream \<Rightarrow> 'b res) \<Rightarrow> 'b res" where
  "and_then (Ret x s) f = f x s"
| "and_then (Blocked s) f = Blocked s"
| "and_then (Parked s k) f = Parked s (\<lambda>s'. and_then (k s') f)"

definition newStreamInstance :: "string \<Rightarrow> string \<Rightarrow> io list option \<Rightarrow> Stream" where
  "newStreamInstance pstr ppretty tr =
     \<lparr>locked = False, pid_String = pstr, pid_Pretty = ppretty, stream = tr,
      handshakeSucceedCh = 0, handshakeSucceedCh_sendq = 0, messageNotifChan = 0,
      highPriorityMessageChan = [], normalPriorityMessageChan = [],
      lowPriorityMessageChan = [], quitWriteCh = 0,
      status = streamStatusInit, msgCount = Map.empty, compressFlag = Map.empty,
      trace = []\<rparr>"

definition IsConnected :: "Stream \<Rightarrow> bool" where
  "IsConnected s = (stream s \<noteq> None)"

definition IsHandshakeSucceed :: "Stream \<Rightarrow> bool" where
  "IsHandshakeSucceed s = (status s = streamStatusHandshakeSucceed)"

subsection \<open>close, Write and the direct-write path\<close>

text \<open>
  \<^verbatim>\<open>close\<close>: the reason is only logged. A caller that finds the mutex held waits; a
  caller that reaches \<^verbatim>\<open>s.quitWriteCh <- true\<close> with the channel full waits there,
  holding the mutex.
\<close>

definition close :: "Stream \<Rightarrow> unit res" where
  "close s =
     (if locked s then Blocked s
      else if status s = streamStatusClosed then Ret () s
      else
        let s1 = s\<lparr>status := streamStatusClosed,
                   trace := trace s @ [RemoveStream, RemovePeerStream]\<rparr>
        in if 1 \<le> quitWriteCh s1 then Blocked (s1\<lparr>locked := True\<rparr>)
           else
             let s2 = s1\<lparr>quitWriteCh := quitWriteCh s1 + 1,
                        trace := trace s1 @ [QuitSignal]\<rparr>
             in (case stream s2 of
                   None \<Rightarrow> Ret () s2
                 | Some tr \<Rightarrow> Ret () (s2\<lparr>trace := trace s2 @ [TransportClose]\<rparr>)))"

text \<open>
  \<^verbatim>\<open>time.Duration(len(data)/1024/5+1) * time.Second\<close>: the number of seconds, and the
  \<^verbatim>\<open>int64\<close> count of nanoseconds it becomes.
\<close>

definition write_deadline_seconds :: "nat \<Rightarrow> nat" where
  "write_deadline_seconds len = len div 1024 div 5 + 1"

definition write_deadline :: "nat \<Rightarrow> 64 word" where
  "write_deadline len = word_of_nat (write_deadline_seconds len) * 1000000000"

definition Write :: "Stream \<Rightarrow> bytes \<Rightarrow> error option res" where
  "Write s data =
     (case stream s of
        None \<Rightarrow>
          and_then (close s) (\<lambda>u s'. Ret (Some ErrStreamIsNotConnected) s')
      | Some tr \<Rightarrow>
          let r = (case tr of [] \<Rightarrow> IoOk | r # rest \<Rightarrow> r);
              s1 = s\<lparr>stream := Some (tl tr),
                     trace := trace s @ [SetWriteDeadline (write_deadline (length data))]\<rparr>
          in if r = IoDeadlineErr then Ret (Some ErrCollaborator) s1
             else
               let s2 = s1\<lparr>trace := trace s1 @ [TransportWrite data]\<rparr>
               in if r = IoWriteErr then
                    and_then (close s2) (\<lambda>u s'. Ret (Some ErrCollaborator) s')
                  else Ret None s2)"

definition WriteNebMessage :: "Stream \<Rightarrow> NebMessage \<Rightarrow> error option res" where
  "WriteNebMessage s message = Write s (Content message)"

definition WriteMessage :: "env \<Rightarrow> Stream \<Rightarrow> string \<Rightarrow> bytes \<Rightarrow> error option res" where
  "WriteMessage e s messageName data =
     (case NewNebMessage e messageName data of
        None \<Rightarrow> Ret (Some ErrCollaborator) s
      | Some message \<Rightarrow> WriteNebMessage s message)"

text \<open>The second argument is the result of \<^verbatim>\<open>proto.Marshal(pb)\<close>.\<close>

definition WriteProtoMessage :: "env \<Rightarrow> Stream \<Rightarrow> string \<Rightarrow> bytes option \<Rightarrow> error option res" where
  "WriteProtoMessage e s messageName pb =
     (case pb of
        None \<Rightarrow> Ret (Some ErrCollaborator) s
      | Some data \<Rightarrow> WriteMessage e s messageName data)"

definition Bye :: "env \<Rightarrow> Stream \<Rightarrow> unit res" where
  "Bye e s = and_then (WriteMessage e s BYE []) (\<lambda>err s'. close s')"

definition Hello :: "env \<Rightarrow> Stream \<Rightarrow> error option res" where
  "Hello e s = WriteProtoMessage e s HELLO (Marshal_Hello e)"

definition Ok :: "env \<Rightarrow> Stream \<Rightarrow> error option res" where
  "Ok e s = WriteProtoMessage e s OK (Marshal_OK e)"

subsection \<open>The enqueue path\<close>

definition notify :: "Stream \<Rightarrow> error option res" where
  "notify s =
     (if messageNotifChan s < 6 * 1024
      then Ret None (s\<lparr>messageNotifChan := messageNotifChan s + 1\<rparr>)
      else Ret None s)"

definition SendMessage :: "env \<Rightarrow> Stream \<Rightarrow> string \<Rightarrow> bytes \<Rightarrow> int \<Rightarrow> error option res" where
  "SendMessage e s messageName data priority =
     (case NewNebMessage e messageName data of
        None \<Rightarrow> Ret (Some ErrCollaborator) s
      | Some message \<Rightarrow>
          if priority = MessagePriorityHigh then
            (if length (highPriorityMessageChan s) < 2 * 1024
             then notify (s\<lparr>highPriorityMessageChan := highPriorityMessageChan s @ [message]\<rparr>)
             else Blocked s)
          else if priority = MessagePriorityNormal then
            (if length (normalPriorityMessageChan s) < 2 * 1024
             then notify (s\<lparr>normalPriorityMessageChan := normalPriorityMessageChan s @ [message]\<rparr>)
             else Ret None s)
          else
            (if length (lowPriorityMessageChan s) < 2 * 1024
             then notify (s\<lparr>lowPriorityMessageChan := lowPriorityMessageChan s @ [message]\<rparr>)
             else Ret None s))"

definition SendProtoMessage :: "env \<Rightarrow> Stream \<Rightarrow> string \<Rightarrow> bytes option \<Rightarrow> int \<Rightarrow> error option res" where
  "SendProtoMessage e s messageName pb priority =
     (case pb of
        None \<Rightarrow> Ret (Some ErrCollaborator) s
      | Some data \<Rightarrow> SendMessage e s messageName data priority)"

definition RouteTable :: "env \<Rightarrow> Stream \<Rightarrow> error option res" where
  "RouteTable e s = SendProtoMessage e s ROUTETABLE (Marshal_Peers e) MessagePriorityHigh"

subsection \<open>Handshake and dispatch\<close>

definition CheckClientVersionCompatibility :: "string \<Rightarrow> string \<Rightarrow> bool" where
  "CheckClientVersionCompatibility v1 v2 = (v1 = v2)"

text \<open>
  \<^verbatim>\<open>finishHandshake\<close>: the status is assigned, then \<^verbatim>\<open>s.handshakeSucceedCh <- true\<close>.
  With room in the channel the value is buffered and the call returns. With the channel
  full the goroutine joins the channel's send queue and sleeps; the receiver that takes
  the buffered value moves the parked one into the buffer and wakes the sender (see
  \<open>writeLoop_wait\<close>), which then returns from the send and from \<^verbatim>\<open>finishHandshake\<close>.
\<close>

definition finishHandshake :: "Stream \<Rightarrow> unit res" where
  "finishHandshake s =
     (let s1 = s\<lparr>status := streamStatusHandshakeSucceed\<rparr>
      in if 1 \<le> handshakeSucceedCh s1
         then Parked (s1\<lparr>handshakeSucceedCh_sendq := handshakeSucceedCh_sendq s1 + 1\<rparr>)
                (\<lambda>s'. Ret () s')
         else Ret () (s1\<lparr>handshakeSucceedCh := handshakeSucceedCh s1 + 1,
                         trace := trace s1 @ [HandshakeSignal]\<rparr>))"

definition onBye :: "Stream \<Rightarrow> error option res" where
  "onBye s = Ret (Some ErrShouldCloseConnectionAndExitLoop) s"

definition onHello :: "env \<Rightarrow> Stream \<Rightarrow> bytes \<Rightarrow> error option res" where
  "onHello e s data =
     (case HelloMessageFromProto e data of
        None \<Rightarrow> Ret (Some ErrShouldCloseConnectionAndExitLoop) s
      | Some (NodeId, version) \<Rightarrow>
          if NodeId \<noteq> pid_String s \<or> \<not> CheckClientVersionCompatibility ClientVersion version
          then Ret (Some ErrShouldCloseConnectionAndExitLoop) s
          else
            and_then (finishHandshake (s\<lparr>trace := trace s @ [AddPeerStream]\<rparr>))
              (\<lambda>u s'. Ok e s'))"

definition onOk :: "env \<Rightarrow> Stream \<Rightarrow> bytes \<Rightarrow> error option res" where
  "onOk e s data =
     (case OKMessageFromProto e data of
        None \<Rightarrow> Ret (Some ErrShouldCloseConnectionAndExitLoop) s
      | Some (NodeId, version) \<Rightarrow>
          if NodeId \<noteq> pid_String s \<or> \<not> CheckClientVersionCompatibility ClientVersion version
          then Ret (Some ErrShouldCloseConnectionAndExitLoop) s
          else
            and_then (finishHandshake (s\<lparr>trace := trace s @ [AddPeerStream]\<rparr>))
              (\<lambda>u s'. Ret None s'))"

definition onSyncRoute :: "env \<Rightarrow> Stream \<Rightarrow> error option res" where
  "onSyncRoute e s = RouteTable e s"

definition onRouteTable :: "env \<Rightarrow> Stream \<Rightarrow> bytes \<Rightarrow> error option res" where
  "onRouteTable e s data =
     (case Unmarshal_Peers e data of
        None \<Rightarrow> Ret (Some ErrShouldCloseConnectionAndExitLoop) s
      | Some peers \<Rightarrow> Ret None (s\<lparr>trace := trace s @ [AddPeers peers]\<rparr>))"

text \<open>The first four statements of \<^verbatim>\<open>handleMessage\<close>: the two bookkeeping maps.\<close>

definition count_message :: "Stream \<Rightarrow> NebMessage \<Rightarrow> Stream" where
  "count_message s message =
     s\<lparr>compressFlag := (compressFlag s)(pid_Pretty s \<mapsto> Reserved0 message AND 0x80),
       msgCount := (msgCount s)(MessageName message \<mapsto>
          (case msgCount s (MessageName message) of None \<Rightarrow> 0 | Some n \<Rightarrow> n) + 1)\<rparr>"

text \<open>The decompression step: the payload the handlers get, or the failure.\<close>

definition uncompress :: "env \<Rightarrow> NebMessage \<Rightarrow> bytes option" where
  "uncompress e message =
     (if MessageName message \<noteq> HELLO then
        (if 0 < (Reserved0 message AND 0x80) then snappy_Decode e (Data message)
         else Some (Data message))
      else Some (Data message))"

definition handleMessage :: "env \<Rightarrow> Stream \<Rightarrow> NebMessage \<Rightarrow> error option res" where
  "handleMessage e s message =
     (let messageName = MessageName message;
          s0 = count_message s message
      in case uncompress e message of
           None \<Rightarrow> Ret (Some ErrUncompressMessageFailed) s0
         | Some data \<Rightarrow>
             if messageName = HELLO then onHello e s0 data
             else if messageName = OK then onOk e s0 data
             else if messageName = BYE then onBye s0
             else if status s0 \<noteq> streamStatusHandshakeSucceed
               then Ret (Some ErrShouldCloseConnectionAndExitLoop) s0
             else if messageName = SYNCROUTE then onSyncRoute e s0
             else if messageName = ROUTETABLE then onRouteTable e s0 data
             else Ret None
               (s0\<lparr>trace := trace s0 @
                  [PutMessage messageName (pid_Pretty s0) data,
                   RecordRecvMessage (ChecksumIEEE e data)]\<rparr>))"

subsection \<open>The read loop\<close>

text \<open>
  What one turn of the read loop finds: the transport read fails; the accumulated bytes
  do not parse as a header (\<^verbatim>\<open>ParseNebMessage\<close>); the header carries another chain ID;
  the payload does not verify (\<^verbatim>\<open>ParseMessageData\<close>); or a complete frame. The two
  parsers are declared outside \<^verbatim>\<open>stream.go\<close>, so the loop is given the sequence of
  their outcomes rather than the bytes. When the sequence ends the loop is waiting in
  \<^verbatim>\<open>s.stream.Read\<close>.
\<close>

datatype input = ReadError | BadHeader | BadChainID | BadData | Frame NebMessage

fun readLoop_frames :: "env \<Rightarrow> Stream \<Rightarrow> input list \<Rightarrow> unit res" where
  "readLoop_frames e s [] = Blocked s"
| "readLoop_frames e s (ReadError # rest) = close s"
| "readLoop_frames e s (BadHeader # rest) = Bye e s"
| "readLoop_frames e s (BadChainID # rest) = Bye e s"
| "readLoop_frames e s (BadData # rest) = Bye e s"
| "readLoop_frames e s (Frame message # rest) =
     and_then (handleMessage e s message)
       (\<lambda>err s'.
          if err = Some ErrShouldCloseConnectionAndExitLoop then Bye e s'
          else readLoop_frames e s' rest)"

text \<open>
  \<^verbatim>\<open>readLoop\<close>: \<open>dial\<close> is the result of \<^verbatim>\<open>Connect\<close> (the transport, or \<open>None\<close> for an
  error), used only when the stream is not connected yet.
\<close>

definition readLoop :: "env \<Rightarrow> io list option \<Rightarrow> Stream \<Rightarrow> input list \<Rightarrow> unit res" where
  "readLoop e dial s inputs =
     (if \<not> IsConnected s then
        (case dial of
           None \<Rightarrow> close s
         | Some tr \<Rightarrow>
             and_then (Hello e (s\<lparr>stream := Some tr\<rparr>))
               (\<lambda>err s'. if err \<noteq> None then close s' else readLoop_frames e s' inputs))
      else readLoop_frames e s inputs)"

subsection \<open>The write loop\<close>

text \<open>
  A \<^verbatim>\<open>select\<close> takes one of its ready cases; which one is the scheduler's choice and
  a parameter here. A choice whose case is not ready is not taken: the result is
  \<open>Blocked\<close>. The handshake ticker is ready once 30 seconds have passed.
\<close>

datatype wait_choice = TakeHandshake | TakeQuitEarly | TakeTimeout

datatype drain_choice = TakeQuit | TakeNotif

text \<open>
  The first \<^verbatim>\<open>select\<close> of \<^verbatim>\<open>writeLoop\<close>; \<open>True\<close> when the loop goes on to drain. The
  receive from the handshake barrier takes the buffered value; when a sender is parked,
  its value moves into the buffer in the same step (the parked send has gone through)
  and the sender is woken.
\<close>

definition writeLoop_wait :: "wait_choice \<Rightarrow> Stream \<Rightarrow> bool res" where
  "writeLoop_wait c s =
     (case c of
        TakeHandshake \<Rightarrow>
          if 0 < handshakeSucceedCh s then
            (if 0 < handshakeSucceedCh_sendq s
             then Ret True (s\<lparr>handshakeSucceedCh_sendq := handshakeSucceedCh_sendq s - 1,
                              trace := trace s @ [HandshakeSignal]\<rparr>)
             else Ret True (s\<lparr>handshakeSucceedCh := handshakeSucceedCh s - 1\<rparr>))
          else Blocked s
      | TakeQuitEarly \<Rightarrow>
          if 0 < quitWriteCh s
          then Ret False (s\<lparr>quitWriteCh := quitWriteCh s - 1\<rparr>)
          else Blocked s
      | TakeTimeout \<Rightarrow> and_then (close s) (\<lambda>u s'. Ret False s'))"

text \<open>
  The body of \<^verbatim>\<open>case <-s.messageNotifChan\<close>: three non-blocking receives in order, the
  first that yields a message writes it; the result of \<^verbatim>\<open>WriteNebMessage\<close> is dropped.
\<close>

definition writeLoop_notified :: "Stream \<Rightarrow> unit res" where
  "writeLoop_notified s =
     (case highPriorityMessageChan s of
        message # rest \<Rightarrow>
          and_then (WriteNebMessage (s\<lparr>highPriorityMessageChan := rest\<rparr>) message)
            (\<lambda>err s'. Ret () s')
      | [] \<Rightarrow>
          (case normalPriorityMessageChan s of
             message # rest \<Rightarrow>
               and_then (WriteNebMessage (s\<lparr>normalPriorityMessageChan := rest\<rparr>) message)
                 (\<lambda>err s'. Ret () s')
           | [] \<Rightarrow>
               (case lowPriorityMessageChan s of
                  message # rest \<Rightarrow>
                    and_then (WriteNebMessage (s\<lparr>lowPriorityMessageChan := rest\<rparr>) message)
                      (\<lambda>err s'. Ret () s')
                | [] \<Rightarrow> Ret () s)))"

text \<open>One turn of the \<^verbatim>\<open>for\<close> loop; \<open>True\<close> when the loop continues.\<close>

definition writeLoop_turn :: "drain_choice \<Rightarrow> Stream \<Rightarrow> bool res" where
  "writeLoop_turn c s =
     (case c of
        TakeQuit \<Rightarrow>
          if 0 < quitWriteCh s
          then Ret False (s\<lparr>quitWriteCh := quitWriteCh s - 1\<rparr>)
          else Blocked s
      | TakeNotif \<Rightarrow>
          if 0 < messageNotifChan s then
            and_then (writeLoop_notified (s\<lparr>messageNotifChan := messageNotifChan s - 1\<rparr>))
              (\<lambda>u s'. Ret True s')
          else Blocked s)"

text \<open>The \<^verbatim>\<open>for\<close> loop under a schedule; at the end of the schedule it waits in \<^verbatim>\<open>select\<close>.\<close>

fun writeLoop_drain :: "drain_choice list \<Rightarrow> Stream \<Rightarrow> unit res" where
  "writeLoop_drain [] s = Blocked s"
| "writeLoop_drain (c # cs) s =
     and_then (writeLoop_turn c s)
       (\<lambda>continue s'. if continue then writeLoop_drain cs s' else Ret () s')"

definition writeLoop :: "wait_choice \<Rightarrow> drain_choice list \<Rightarrow> Stream \<Rightarrow> unit res" where
  "writeLoop c cs s =
     and_then (writeLoop_wait c s)
       (\<lambda>go s'. if go then writeLoop_drain cs s' else Ret () s')"

subsection \<open>Notions the statements use\<close>

text \<open>The state a call leaves behind, whether it returned or is still waiting.\<close>

fun state_of :: "'a res \<Rightarrow> Stream" where
  "state_of (Ret x s) = s"
| "state_of (Blocked s) = s"
| "state_of (Parked s k) = s"

text \<open>\<open>n\<close> invocations of \<^verbatim>\<open>close\<close>, one after the other, by any callers.\<close>

fun close_calls :: "nat \<Rightarrow> Stream \<Rightarrow> Stream" where
  "close_calls 0 s = s"
| "close_calls (Suc n) s = close_calls n (state_of (close s))"

text \<open>
  The deadline in the words of the specification: \<open>max(1, ceil(len/5120))\<close> seconds.
\<close>

definition spec_write_deadline_seconds :: "nat \<Rightarrow> nat" where
  "spec_write_deadline_seconds len = max 1 ((len + 5119) div 5120)"

text \<open>
  A concrete environment for the worked examples. Frames carry the payload as their
  content; the payload \<open>[1]\<close> decodes to the handshake message of peer \<open>peer\<close> at the
  local client version, \<open>[2]\<close> to the same peer at version 0.2.9; of \<^verbatim>\<open>snappy.Decode\<close>
  only two values are used: \<open>[0]\<close> is the encoding of the empty payload, and the empty
  input is corrupt (it has no length prefix).
\<close>

definition example_frame :: "string \<Rightarrow> bytes \<Rightarrow> NebMessage" where
  "example_frame name data = \<lparr>MessageName = name, Reserved0 = 0, Data = data, Content = data\<rparr>"

definition example_handshake :: "bytes \<Rightarrow> (string \<times> string) option" where
  "example_handshake b =
     (if b = [1] then Some (''peer'', ''0.3.0'')
      else if b = [2] then Some (''peer'', ''0.2.9'')
      else None)"

definition example_env :: env where
  "example_env =
     \<lparr>NewNebMessage = (\<lambda>name data. Some (example_frame name data)),
      Marshal_Hello = Some [1], Marshal_OK = Some [1], Marshal_Peers = Some [],
      HelloMessageFromProto = example_handshake,
      OKMessageFromProto = example_handshake,
      Unmarshal_Peers = (\<lambda>b. if b = [] then Some [] else None),
      snappy_Decode = (\<lambda>b. if b = [0] then Some [] else None),
      ChecksumIEEE = (\<lambda>b. 0)\<rparr>"

text \<open>An inbound stream of peer \<open>peer\<close>, as \<^verbatim>\<open>NewStream\<close> makes it.\<close>

definition example_stream :: Stream where
  "example_stream = newStreamInstance ''peer'' ''peer'' (Some [])"

text \<open>The payloads handed to the transport's \<^verbatim>\<open>Write\<close> in a trace, in order.\<close>

fun writes :: "action list \<Rightarrow> bytes list" where
  "writes [] = []"
| "writes (TransportWrite d # t) = d # writes t"
| "writes (a # t) = writes t"

text \<open>The queued messages in the order strict priority serves them.\<close>

definition queued :: "Stream \<Rightarrow> NebMessage list" where
  "queued s = highPriorityMessageChan s @ normalPriorityMessageChan s @ lowPriorityMessageChan s"

text \<open>
  The example stream after the handshake with one message waiting at each priority and
  three notifications pending (enqueued in the order LOW, NORMAL, HIGH).
\<close>

definition example_backlog :: Stream where
  "example_backlog =
     example_stream\<lparr>status := streamStatusHandshakeSucceed,
        lowPriorityMessageChan := [example_frame ''block'' [3]],
        normalPriorityMessageChan := [example_frame ''tx'' [2]],
        highPriorityMessageChan := [example_frame ''syncroute'' [1]],
        messageNotifChan := 3\<rparr>"

text \<open>The example stream once a valid handshake message has been handled.\<close>

definition example_handshaken :: Stream where
  "example_handshaken =
     example_stream\<lparr>status := streamStatusHandshakeSucceed, handshakeSucceedCh := 1,
        trace := [AddPeerStream, HandshakeSignal]\<rparr>"

text \<open>How often the handshake barrier has been signalled.\<close>

definition signals :: "Stream \<Rightarrow> nat" where
  "signals s = count_list (trace s) HandshakeSignal"

text \<open>
  A message completes the handshake on a stream when it is a HELLO or an OK whose
  payload decodes to the peer's own ID and the local client version.
\<close>

definition completes_handshake :: "env \<Rightarrow> Stream \<Rightarrow> NebMessage \<Rightarrow> bool" where
  "completes_handshake e s message =
     (case uncompress e message of
        None \<Rightarrow> False
      | Some data \<Rightarrow>
          (MessageName message = HELLO
             \<and> HelloMessageFromProto e data = Some (pid_String s, ClientVersion))
          \<or> (MessageName message = OK
             \<and> OKMessageFromProto e data = Some (pid_String s, ClientVersion)))"

text \<open>
  Two frames for the examples: a valid HELLO of the peer, and a SYNCROUTE frame with the
  compression flag set whose payload is empty, which \<^verbatim>\<open>snappy.Decode\<close> rejects.
\<close>

definition example_hello :: NebMessage where
  "example_hello = example_frame HELLO [1]"

definition example_garbled :: NebMessage where
  "example_garbled = \<lparr>MessageName = SYNCROUTE, Reserved0 = 0x80, Data = [], Content = []\<rparr>"

text \<open>Whether a call is parked in the send on the handshake barrier.\<close>

fun parked :: "'a res \<Rightarrow> bool" where
  "parked (Parked s k) = True"
| "parked (Ret x s) = False"
| "parked (Blocked s) = False"

text \<open>
  A parked call goes on once its value has left the send queue, on the state \<open>s'\<close> the
  stream has reached by then; until then it stays parked.
\<close>

fun resume :: "'a res \<Rightarrow> Stream \<Rightarrow> 'a res" where
  "resume (Parked s k) s' = (if handshakeSucceedCh_sendq s' = 0 then k s' else Parked s' k)"
| "resume (Ret x s) s' = Ret x s"
| "resume (Blocked s) s' = Blocked s"

text \<open>
  An execution of a stream: the operations its goroutines and callers perform on it, in
  the order in which they take effect. The read loop handles a received frame or says
  bye; once parked in the barrier send it does nothing until it is resumed. The write
  loop makes a step of its first \<^verbatim>\<open>select\<close> or a turn of its \<^verbatim>\<open>for\<close> loop. Any caller
  closes the stream or enqueues a message. The state of an execution is the stream
  together with the rest of the parked handler, if the read loop is parked.
\<close>

datatype event =
    Handle NebMessage
  | Resume
  | SayBye
  | Wait wait_choice
  | Turn drain_choice
  | Close
  | Send string bytes int

type_synonym system = "Stream \<times> (Stream \<Rightarrow> error option res) option"

fun rest_of :: "'a res \<Rightarrow> (Stream \<Rightarrow> 'a res) option" where
  "rest_of (Parked s k) = Some k"
| "rest_of (Ret x s) = None"
| "rest_of (Blocked s) = None"

fun step :: "env \<Rightarrow> event \<Rightarrow> system \<Rightarrow> system" where
  "step e (Handle message) (s, None) =
     (state_of (handleMessage e s message), rest_of (handleMessage e s message))"
| "step e (Handle message) (s, Some k) = (s, Some k)"
| "step e Resume (s, None) = (s, None)"
| "step e Resume (s, Some k) =
     (state_of (resume (Parked s k) s), rest_of (resume (Parked s k) s))"
| "step e SayBye (s, None) = (state_of (Bye e s), None)"
| "step e SayBye (s, Some k) = (s, Some k)"
| "step e (Wait c) (s, p) = (state_of (writeLoop_wait c s), p)"
| "step e (Turn c) (s, p) = (state_of (writeLoop_turn c s), p)"
| "step e Close (s, p) = (state_of (close s), p)"
| "step e (Send messageName data priority) (s, p) =
     (state_of (SendMessage e s messageName data priority), p)"

fun run :: "env \<Rightarrow> event list \<Rightarrow> system \<Rightarrow> system" where
  "run e [] c = c"
| "run e (ev # evs) c = run e evs (step e ev c)"

text \<open>The frames an execution hands to \<^verbatim>\<open>handleMessage\<close>.\<close>

fun handled :: "event list \<Rightarrow> NebMessage list" where
  "handled [] = []"
| "handled (Handle message # evs) = message # handled evs"
| "handled (ev # evs) = handled evs"

text \<open>
  The signals the barrier has got or is about to get: those that went through and the
  sends parked in its queue.
\<close>

definition barrier_sends :: "Stream \<Rightarrow> nat" where
  "barrier_sends s = signals s + handshakeSucceedCh_sendq s"

text \<open>
  One state has the barrier (signals sent, buffer, send queue) and the peer ID of
  another; the effect of a handler on them, where the rest of a parked handler leaves
  them alone and returns; and the states of an execution in which the buffer holds no
  more than was signalled and a parked handler has that property.
\<close>

definition same_barrier :: "Stream \<Rightarrow> Stream \<Rightarrow> bool" where
  "same_barrier s s' =
     (signals s' = signals s \<and> handshakeSucceedCh_sendq s' = handshakeSucceedCh_sendq s
      \<and> handshakeSucceedCh s' = handshakeSucceedCh s \<and> pid_String s' = pid_String s)"

definition handler_effect :: "nat \<Rightarrow> Stream \<Rightarrow> error option res \<Rightarrow> bool" where
  "handler_effect n s r =
     (barrier_sends (state_of r) = barrier_sends s + n \<and> pid_String (state_of r) = pid_String s
      \<and> (handshakeSucceedCh s \<le> signals s \<longrightarrow>
             handshakeSucceedCh (state_of r) \<le> signals (state_of r))
      \<and> (case rest_of r of None \<Rightarrow> True
          | Some k \<Rightarrow> 0 < n \<and> (\<forall>s'. same_barrier s' (state_of (k s')) \<and> \<not> parked (k s'))))"

definition settled :: "system \<Rightarrow> bool" where
  "settled c =
     (handshakeSucceedCh (fst c) \<le> signals (fst c)
      \<and> (case snd c of None \<Rightarrow> True
          | Some k \<Rightarrow> 0 < barrier_sends (fst c)
              \<and> (\<forall>s'. same_barrier s' (state_of (k s')) \<and> \<not> parked (k s'))))"

text \<open>What a call returned, if it has returned.\<close>

fun result_of :: "'a res \<Rightarrow> 'a option" where
  "result_of (Ret x s) = Some x"
| "result_of (Blocked s) = None"
| "result_of (Parked s k) = None"

text \<open>
  The example stream after two valid HELLOs with the write loop's receive from the
  barrier between them: the write loop is in its \<^verbatim>\<open>for\<close> loop, the barrier is full again.
\<close>

definition example_twice :: Stream where
  "example_twice =
     state_of (handleMessage example_env
       (state_of (writeLoop_wait TakeHandshake
          (state_of (handleMessage example_env example_stream example_hello))))
       example_hello)"

text \<open>An outbound stream of peer \<open>peer\<close> before the dial, as \<^verbatim>\<open>NewStreamFromPID\<close> makes it.\<close>

definition example_outbound :: Stream where
  "example_outbound = newStreamInstance ''peer'' ''peer'' None"

section \<open>Properties\<close>

text \<open>The definitions the worked examples unfold.\<close>

lemmas example_defs = example_env_def example_frame_def example_handshake_def example_stream_def
  example_hello_def example_garbled_def example_handshaken_def example_backlog_def
  newStreamInstance_def HELLO_def OK_def BYE_def SYNCROUTE_def ROUTETABLE_def ClientVersion_def

lemmas run_defs = handleMessage_def count_message_def uncompress_def onHello_def onOk_def onBye_def
  onSyncRoute_def onRouteTable_def RouteTable_def SendProtoMessage_def SendMessage_def notify_def
  finishHandshake_def CheckClientVersionCompatibility_def Ok_def Hello_def Bye_def
  WriteProtoMessage_def WriteMessage_def WriteNebMessage_def Write_def close_def
  write_deadline_def write_deadline_seconds_def writeLoop_wait_def Let_def

subsection \<open>close\<close>

lemma close_again:
  "(case close s of Ret u s' \<Rightarrow> close s' = Ret () s' | Blocked s' \<Rightarrow> close s' = Blocked s'
      | Parked s' k \<Rightarrow> False)"
  by (simp add: close_def Let_def split: option.splits)

lemma close_state_idem: "state_of (close (state_of (close s))) = state_of (close s)"
  by (simp add: close_def Let_def split: option.splits)

lemma close_calls_Suc: "close_calls (Suc n) s = state_of (close s)"
proof (induction n arbitrary: s)
  case 0
  show ?case by simp
next
  case (Suc n)
  have "close_calls (Suc (Suc n)) s = close_calls (Suc n) (state_of (close s))" by simp
  also have "\<dots> = state_of (close (state_of (close s)))" by (rule Suc.IH)
  finally show ?case by (simp only: close_state_idem)
qed

lemma close_trace:
  "\<exists>t. trace (state_of (close s)) = trace s @ t \<and> count_list t RemoveStream \<le> 1
     \<and> count_list t RemovePeerStream \<le> 1 \<and> count_list t QuitSignal \<le> 1
     \<and> count_list t TransportClose \<le> 1 \<and> count_list t HandshakeSignal = 0"
  by (simp add: close_def Let_def split: option.splits)

text \<open>
  C3. \<^verbatim>\<open>close\<close> is idempotent. A call made after one that returned returns at once
  and changes nothing; a call made while one is still waiting inside \<^verbatim>\<open>close\<close> waits
  for the mutex and changes nothing. So any number of invocations leaves the state of
  the first, and over the whole sequence each of the four teardown actions
  (\<^verbatim>\<open>RemoveStream\<close>, \<^verbatim>\<open>RemovePeerStream\<close>, the quit signal, the transport's \<^verbatim>\<open>Close\<close>)
  is appended to the trace at most once.
\<close>

theorem close_idempotent:
  "(case close s of Ret u s' \<Rightarrow> close s' = Ret () s' | Blocked s' \<Rightarrow> close s' = Blocked s'
      | Parked s' k \<Rightarrow> False)
   \<and> close_calls (Suc n) s = state_of (close s)
   \<and> (\<exists>t. trace (close_calls n s) = trace s @ t \<and> count_list t RemoveStream \<le> 1
         \<and> count_list t RemovePeerStream \<le> 1 \<and> count_list t QuitSignal \<le> 1
         \<and> count_list t TransportClose \<le> 1)"
proof -
  have third: "\<exists>t. trace (close_calls n s) = trace s @ t \<and> count_list t RemoveStream \<le> 1
         \<and> count_list t RemovePeerStream \<le> 1 \<and> count_list t QuitSignal \<le> 1
         \<and> count_list t TransportClose \<le> 1"
  proof (cases n)
    case 0
    then show ?thesis by simp
  next
    case (Suc m)
    from close_trace [of s] obtain t where
      "trace (state_of (close s)) = trace s @ t" "count_list t RemoveStream \<le> 1"
      "count_list t RemovePeerStream \<le> 1" "count_list t QuitSignal \<le> 1"
      "count_list t TransportClose \<le> 1"
      by blast
    then show ?thesis unfolding Suc close_calls_Suc by blast
  qed
  show ?thesis using close_again [of s] close_calls_Suc [of n s] third by blast
qed

subsection \<open>Write\<close>

lemma secs: "write_deadline_seconds len = len div 5120 + 1"
  by (simp add: write_deadline_seconds_def div_mult2_eq)

lemma sint_word_of_nat_64:
  assumes "m < 2 ^ 63"
  shows "sint (word_of_nat m :: 64 word) = int m"
proof -
  have "sint (word_of_int (int m) :: 64 word) = signed_take_bit (LENGTH(64) - 1) (int m)"
    by (rule sint_sbintrunc')
  also have "\<dots> = int m"
    using assms by (simp add: signed_take_bit_int_eq_self_iff)
  finally show ?thesis by simp
qed

lemma wd_sint: 
  assumes a: "len < 2 ^ 45"
  shows "sint (write_deadline len) = int (write_deadline_seconds len) * 1000000000"
proof -
  have b: "write_deadline_seconds len \<le> 2 ^ 33" using a unfolding secs by simp
  have c: "write_deadline len = word_of_nat (write_deadline_seconds len * 1000000000)"
    by (simp add: write_deadline_def)
  have d: "write_deadline_seconds len * 1000000000 < 2 ^ 63" using b by simp
  show ?thesis unfolding c using sint_word_of_nat_64 [OF d] by simp
qed

lemma state_of_and_then_Ret:
  "state_of (and_then r (\<lambda>x s'. Ret (g x) s')) = state_of r"
  by (cases r) simp_all

lemma state_of_close_lift:
  "state_of (and_then (close s) (\<lambda>u s'. Ret x s')) = state_of (close s)"
  by (cases "close s") simp_all

lemma Write_attached_trace:
  assumes "stream s = Some tr"
  shows "\<exists>rest. trace (state_of (Write s data)) =
           trace s @ SetWriteDeadline (write_deadline (length data)) # rest"
proof -
  define r where "r = (case tr of [] \<Rightarrow> IoOk | r # rest \<Rightarrow> r)"
  define s2 where "s2 = s\<lparr>stream := Some (tl tr),
        trace := trace s @ [SetWriteDeadline (write_deadline (length data)), TransportWrite data]\<rparr>"
  show ?thesis
  proof (cases r)
    case IoOk
    then show ?thesis using assms by (simp add: Write_def Let_def r_def)
  next
    case IoDeadlineErr
    then show ?thesis using assms by (simp add: Write_def Let_def r_def)
  next
    case IoWriteErr
    then have w: "state_of (Write s data) = state_of (close s2)"
      using assms by (simp add: Write_def Let_def r_def s2_def state_of_close_lift)
    from close_trace [of s2] obtain t where "trace (state_of (close s2)) = trace s2 @ t"
      by blast
    then show ?thesis unfolding w by (simp add: s2_def)
  qed
qed

lemma small_div:
  assumes "r < 5120"
  shows "(r + 5119) div 5120 = (if r = 0 then 0 else (1::nat))"
proof (cases "r = 0")
  case True
  then show ?thesis by simp
next
  case False
  have "(r + 5119) div 5120 = 1"
    by (rule div_nat_eqI) (use False assms in simp_all)
  then show ?thesis using False by simp
qed

lemma ceil_div: "((n::nat) + 5119) div 5120 = n div 5120 + (if 5120 dvd n then 0 else 1)"
proof -
  define q where "q = n div 5120"
  define r where "r = n mod 5120"
  have n: "n = r + q * 5120" by (simp add: q_def r_def)
  have r: "r < 5120" by (simp add: r_def)
  have "(n + 5119) div 5120 = (r + 5119 + q * 5120) div 5120" by (simp add: n)
  also have "\<dots> = (r + 5119) div 5120 + q" by simp
  also have "\<dots> = q + (if r = 0 then 0 else 1)" using small_div [OF r] by simp
  finally show ?thesis by (simp add: q_def r_def dvd_eq_mod_eq_0)
qed

lemma spec_seconds_le: "spec_write_deadline_seconds n \<le> n div 5120 + 1"
  by (simp add: spec_write_deadline_seconds_def ceil_div)

lemma spec_seconds_eq:
  "(n div 5120 + 1 = spec_write_deadline_seconds n) = (n = 0 \<or> \<not> 5120 dvd n)"
proof (cases "5120 dvd n")
  case False
  then show ?thesis by (simp add: spec_write_deadline_seconds_def ceil_div)
next
  case True
  then have "(n div 5120 = 0) = (n = 0)" by (simp add: dvd_div_eq_0_iff)
  then show ?thesis using True
    by (auto simp add: spec_write_deadline_seconds_def ceil_div max_def)
qed

lemma write_deadline_sint:
  assumes "n < 2 ^ 45"
  shows "sint (write_deadline n) = int (n div 5120 + 1) * 1000000000"
  using wd_sint [OF assms] by (simp only: secs)

lemma Write_ok:
  "stream s = Some [] \<Longrightarrow> Write s data = Ret None (s\<lparr>stream := Some [],
      trace := trace s @ [SetWriteDeadline (write_deadline (length data)), TransportWrite data]\<rparr>)"
  by (simp add: Write_def Let_def)

text \<open>
  C8, as stated: the deadline of a write of \<open>len\<close> bytes is \<open>max(1, ceil(len/5120))\<close>
  seconds. It fails at 5120 bytes: \<^verbatim>\<open>Write\<close> sets the deadline 2 seconds ahead, the
  formula gives 1.
\<close>

theorem Write_deadline_counterexample:
  "trace (state_of (Write (newStreamInstance ''p'' ''p'' (Some [])) (replicate 5120 0)))
     = [SetWriteDeadline 2000000000, TransportWrite (replicate 5120 0)]
   \<and> word_of_nat (spec_write_deadline_seconds (length (replicate 5120 (0::8 word)))) * 1000000000
       = (1000000000 :: 64 word)"
proof -
  have a: "stream (newStreamInstance ''p'' ''p'' (Some [])) = Some []"
    by (simp add: newStreamInstance_def)
  have b: "trace (newStreamInstance ''p'' ''p'' (Some [])) = []"
    by (simp add: newStreamInstance_def)
  have c: "write_deadline (length (replicate 5120 (0::8 word))) = 2000000000"
    by (simp only: length_replicate) (simp add: write_deadline_def write_deadline_seconds_def)
  have d: "spec_write_deadline_seconds (length (replicate 5120 (0::8 word))) = 1"
    by (simp only: length_replicate) (simp add: spec_write_deadline_seconds_def)
  show ?thesis
    by (simp only: Write_ok [OF a] state_of.simps c d b) simp
qed

text \<open>
  C8, amended. For every payload (below \<open>2^45\<close> bytes, where the \<^verbatim>\<open>int64\<close> count of
  nanoseconds cannot wrap) written on an attached transport, the first thing \<^verbatim>\<open>Write\<close>
  does is set the write deadline \<open>len div 5120 + 1\<close> seconds ahead. That is never less
  than \<open>max(1, ceil(len/5120))\<close>, and equal to it exactly when \<open>len\<close> is 0 or not a
  multiple of 5120.
\<close>

theorem Write_deadline:
  assumes "stream s = Some tr" and "length data < 2 ^ 45"
  shows "\<exists>d rest. trace (state_of (Write s data)) = trace s @ SetWriteDeadline d # rest
           \<and> sint d = int (length data div 5120 + 1) * 1000000000
           \<and> spec_write_deadline_seconds (length data) \<le> length data div 5120 + 1
           \<and> ((length data div 5120 + 1 = spec_write_deadline_seconds (length data))
                = (length data = 0 \<or> \<not> 5120 dvd length data))"
proof -
  from Write_attached_trace [OF assms(1)] obtain rest where
    t: "trace (state_of (Write s data)) =
          trace s @ SetWriteDeadline (write_deadline (length data)) # rest"
    by blast
  show ?thesis
    apply (rule exI [of _ "write_deadline (length data)"])
    apply (rule exI [of _ rest])
    apply (intro conjI)
       apply (rule t)
      apply (rule write_deadline_sint [OF assms(2)])
     apply (rule spec_seconds_le)
    apply (rule spec_seconds_eq)
    done
qed

theorem Write_deadline_witness:
  "\<exists>d rest. trace (state_of (Write (newStreamInstance ''p'' ''p'' (Some [])) [1, 2, 3]))
       = trace (newStreamInstance ''p'' ''p'' (Some [])) @ SetWriteDeadline d # rest
     \<and> sint d = int (length [1, 2, 3 :: 8 word] div 5120 + 1) * 1000000000
     \<and> spec_write_deadline_seconds (length [1, 2, 3 :: 8 word]) \<le> length [1, 2, 3 :: 8 word] div 5120 + 1
     \<and> ((length [1, 2, 3 :: 8 word] div 5120 + 1 = spec_write_deadline_seconds (length [1, 2, 3 :: 8 word]))
                = (length [1, 2, 3 :: 8 word] = 0 \<or> \<not> 5120 dvd length [1, 2, 3 :: 8 word]))"
proof -
  have h1: "stream (newStreamInstance ''p'' ''p'' (Some [])) = Some []"
    by (simp add: newStreamInstance_def)
  have h2: "length [1, 2, 3 :: 8 word] < 2 ^ 45"
    by simp
  show ?thesis by (rule Write_deadline [OF h1 h2])
qed

text \<open>
  C10, as stated: after a \<^verbatim>\<open>Write\<close> without a transport the stream is closed and
  permanently unusable. The first part holds, the second does not: when the read loop
  runs afterwards it dials, sends HELLO, and a valid OK of the peer sets the status to
  HANDSHAKE_SUCCEEDED; the next \<^verbatim>\<open>Write\<close> succeeds.
\<close>

theorem closed_stream_connects_again:
  "result_of (Write example_outbound [9]) = Some (Some ErrStreamIsNotConnected)
   \<and> status (state_of (Write example_outbound [9])) = streamStatusClosed
   \<and> status (state_of (readLoop example_env (Some []) (state_of (Write example_outbound [9]))
        [Frame (example_frame OK [1])])) = streamStatusHandshakeSucceed
   \<and> result_of (Write (state_of (readLoop example_env (Some [])
        (state_of (Write example_outbound [9])) [Frame (example_frame OK [1])])) [9]) = Some None"
  by (simp add: example_outbound_def readLoop_def IsConnected_def run_defs example_defs)

text \<open>
  C10, amended. \<^verbatim>\<open>Write\<close> on a stream with no transport attached (mutex free, quit
  channel empty) returns \<^verbatim>\<open>ErrStreamIsNotConnected\<close> and closes the stream on the way:
  the status is CLOSED afterwards and, unless it was CLOSED before, the stream has been
  removed from the stream manager and from the route table and the quit signal has
  been sent (there is no transport to close). In the state it leaves, every further
  \<^verbatim>\<open>Write\<close> fails the same way and \<^verbatim>\<open>close\<close> does nothing.
\<close>

theorem Write_not_connected:
  assumes "stream s = None" and "\<not> locked s" and "quitWriteCh s = 0"
  shows "\<exists>s'. Write s data = Ret (Some ErrStreamIsNotConnected) s'
           \<and> status s' = streamStatusClosed
           \<and> trace s' = trace s @
               (if status s = streamStatusClosed then []
                else [RemoveStream, RemovePeerStream, QuitSignal])
           \<and> quitWriteCh s' = (if status s = streamStatusClosed then 0 else 1)
           \<and> Write s' data' = Ret (Some ErrStreamIsNotConnected) s'
           \<and> close s' = Ret () s'"
  using assms by (simp add: Write_def close_def Let_def)

theorem Write_not_connected_witness:
  "\<exists>s'. Write (newStreamInstance ''p'' ''p'' None) [1] = Ret (Some ErrStreamIsNotConnected) s'
           \<and> status s' = streamStatusClosed
           \<and> trace s' = [RemoveStream, RemovePeerStream, QuitSignal]
           \<and> quitWriteCh s' = 1
           \<and> Write s' [2] = Ret (Some ErrStreamIsNotConnected) s'
           \<and> close s' = Ret () s'"
  using Write_not_connected [of "newStreamInstance ''p'' ''p'' None" "[1]" "[2]"]
  by (simp add: newStreamInstance_def)

subsection \<open>SendMessage\<close>




subsection \<open>The write loop\<close>

lemma writes_append: "writes (t @ u) = writes t @ writes u"
  by (induction t rule: writes.induct) simp_all

lemma close_frame:
  "\<exists>t. trace (state_of (close s)) = trace s @ t \<and> writes t = []
     \<and> highPriorityMessageChan (state_of (close s)) = highPriorityMessageChan s
     \<and> normalPriorityMessageChan (state_of (close s)) = normalPriorityMessageChan s
     \<and> lowPriorityMessageChan (state_of (close s)) = lowPriorityMessageChan s
     \<and> messageNotifChan (state_of (close s)) = messageNotifChan s"
  by (simp add: close_def Let_def split: option.splits)

lemma Write_frame:
  "\<exists>t. trace (state_of (Write s d)) = trace s @ t \<and> (writes t = [] \<or> writes t = [d])
     \<and> highPriorityMessageChan (state_of (Write s d)) = highPriorityMessageChan s
     \<and> normalPriorityMessageChan (state_of (Write s d)) = normalPriorityMessageChan s
     \<and> lowPriorityMessageChan (state_of (Write s d)) = lowPriorityMessageChan s
     \<and> messageNotifChan (state_of (Write s d)) = messageNotifChan s"
proof (cases "stream s")
  case None
  then have w: "state_of (Write s d) = state_of (close s)"
    by (simp add: Write_def state_of_close_lift)
  show ?thesis unfolding w using close_frame [of s] by blast
next
  case (Some tr)
  define r where "r = (case tr of [] \<Rightarrow> IoOk | r # rest \<Rightarrow> r)"
  define s2 where "s2 = s\<lparr>stream := Some (tl tr),
        trace := trace s @ [SetWriteDeadline (write_deadline (length d)), TransportWrite d]\<rparr>"
  show ?thesis
  proof (cases r)
    case IoOk
    then show ?thesis using Some by (simp add: Write_def Let_def r_def)
  next
    case IoDeadlineErr
    then show ?thesis using Some by (simp add: Write_def Let_def r_def)
  next
    case IoWriteErr
    then have w: "state_of (Write s d) = state_of (close s2)"
      using Some by (simp add: Write_def Let_def r_def s2_def state_of_close_lift)
    from close_frame [of s2] obtain t where
      "trace (state_of (close s2)) = trace s2 @ t" "writes t = []"
      "highPriorityMessageChan (state_of (close s2)) = highPriorityMessageChan s2"
      "normalPriorityMessageChan (state_of (close s2)) = normalPriorityMessageChan s2"
      "lowPriorityMessageChan (state_of (close s2)) = lowPriorityMessageChan s2"
      "messageNotifChan (state_of (close s2)) = messageNotifChan s2"
      by blast
    then show ?thesis unfolding w by (simp add: s2_def writes_append)
  qed
qed

lemma state_of_Write_lift:
  "state_of (and_then (Write s d) (\<lambda>err s'. Ret x s')) = state_of (Write s d)"
  by (cases "Write s d") simp_all

lemma notified_any:
  "\<exists>t. trace (state_of (writeLoop_notified s)) = trace s @ t
     \<and> (case queued s of [] \<Rightarrow> t = [] | m # rest \<Rightarrow> writes t = [] \<or> writes t = [Content m])
     \<and> highPriorityMessageChan (state_of (writeLoop_notified s)) = tl (highPriorityMessageChan s)
     \<and> normalPriorityMessageChan (state_of (writeLoop_notified s)) =
          (if highPriorityMessageChan s = [] then tl (normalPriorityMessageChan s)
           else normalPriorityMessageChan s)
     \<and> lowPriorityMessageChan (state_of (writeLoop_notified s)) =
          (if highPriorityMessageChan s = [] \<and> normalPriorityMessageChan s = []
           then tl (lowPriorityMessageChan s) else lowPriorityMessageChan s)
     \<and> messageNotifChan (state_of (writeLoop_notified s)) = messageNotifChan s"
proof (cases "highPriorityMessageChan s")
  case (Cons m rest)
  define s1 where "s1 = s\<lparr>highPriorityMessageChan := rest\<rparr>"
  have w: "state_of (writeLoop_notified s) = state_of (Write s1 (Content m))"
    using Cons by (simp add: writeLoop_notified_def WriteNebMessage_def state_of_Write_lift s1_def)
  show ?thesis unfolding w using Write_frame [of s1 "Content m"] Cons
    by (auto simp add: queued_def s1_def)
next
  case hn: Nil
  show ?thesis
  proof (cases "normalPriorityMessageChan s")
    case (Cons m rest)
    define s1 where "s1 = s\<lparr>normalPriorityMessageChan := rest\<rparr>"
    have w: "state_of (writeLoop_notified s) = state_of (Write s1 (Content m))"
      using Cons hn by (simp add: writeLoop_notified_def WriteNebMessage_def state_of_Write_lift s1_def)
    show ?thesis unfolding w using Write_frame [of s1 "Content m"] Cons hn
      by (auto simp add: queued_def s1_def)
  next
    case nn: Nil
    show ?thesis
    proof (cases "lowPriorityMessageChan s")
      case (Cons m rest)
      define s1 where "s1 = s\<lparr>lowPriorityMessageChan := rest\<rparr>"
      have w: "state_of (writeLoop_notified s) = state_of (Write s1 (Content m))"
        using Cons hn nn by (simp add: writeLoop_notified_def WriteNebMessage_def state_of_Write_lift s1_def)
      show ?thesis unfolding w using Write_frame [of s1 "Content m"] Cons hn nn
        by (auto simp add: queued_def s1_def)
    next
      case Nil
      then show ?thesis using hn nn by (simp add: writeLoop_notified_def queued_def)
    qed
  qed
qed

lemma state_of_notified_lift:
  "state_of (and_then (writeLoop_notified s) (\<lambda>u s'. Ret x s'))
     = state_of (writeLoop_notified s)"
  by (cases "writeLoop_notified s") simp_all

lemma turn_any:
  assumes "0 < messageNotifChan s"
  shows "\<exists>t. trace (state_of (writeLoop_turn TakeNotif s)) = trace s @ t
     \<and> (case queued s of [] \<Rightarrow> t = [] | m # rest \<Rightarrow> writes t = [] \<or> writes t = [Content m])
     \<and> highPriorityMessageChan (state_of (writeLoop_turn TakeNotif s)) = tl (highPriorityMessageChan s)
     \<and> normalPriorityMessageChan (state_of (writeLoop_turn TakeNotif s)) =
          (if highPriorityMessageChan s = [] then tl (normalPriorityMessageChan s)
           else normalPriorityMessageChan s)
     \<and> lowPriorityMessageChan (state_of (writeLoop_turn TakeNotif s)) =
          (if highPriorityMessageChan s = [] \<and> normalPriorityMessageChan s = []
           then tl (lowPriorityMessageChan s) else lowPriorityMessageChan s)
     \<and> messageNotifChan (state_of (writeLoop_turn TakeNotif s)) = messageNotifChan s - 1"
proof -
  have w: "state_of (writeLoop_turn TakeNotif s)
             = state_of (writeLoop_notified (s\<lparr>messageNotifChan := messageNotifChan s - 1\<rparr>))"
    using assms by (simp add: writeLoop_turn_def state_of_notified_lift)
  have q: "queued (s\<lparr>messageNotifChan := messageNotifChan s - 1\<rparr>) = queued s"
    by (simp add: queued_def)
  show ?thesis
    unfolding w using notified_any [of "s\<lparr>messageNotifChan := messageNotifChan s - 1\<rparr>"]
    unfolding q by (simp cong: if_cong)
qed

lemma Write_IoOk:
  assumes "stream s = Some tr" and "list_all (\<lambda>r. r = IoOk) tr"
  shows "Write s d = Ret None (s\<lparr>stream := Some (tl tr),
      trace := trace s @ [SetWriteDeadline (write_deadline (length d)), TransportWrite d]\<rparr>)"
  using assms by (cases tr) (simp_all add: Write_def Let_def)

lemma list_all_tl: "list_all P xs \<Longrightarrow> list_all P (tl xs)"
  by (cases xs) simp_all

lemma turn_ok:
  assumes "stream s = Some tr" and "list_all (\<lambda>r. r = IoOk) tr" and "0 < messageNotifChan s"
  shows "\<exists>s' tr'. writeLoop_turn TakeNotif s = Ret True s' \<and> stream s' = Some tr'
     \<and> list_all (\<lambda>r. r = IoOk) tr' \<and> messageNotifChan s' = messageNotifChan s - 1
     \<and> queued s' = tl (queued s)
     \<and> writes (trace s') = writes (trace s) @ map Content (take 1 (queued s))"
proof (cases "highPriorityMessageChan s")
  case (Cons m rest)
  then show ?thesis using assms list_all_tl [OF assms(2)]
    by (simp add: writeLoop_turn_def writeLoop_notified_def WriteNebMessage_def
        Write_IoOk [where tr = tr] queued_def writes_append)
next
  case hn: Nil
  show ?thesis
  proof (cases "normalPriorityMessageChan s")
    case (Cons m rest)
    then show ?thesis using assms hn list_all_tl [OF assms(2)]
      by (simp add: writeLoop_turn_def writeLoop_notified_def WriteNebMessage_def
          Write_IoOk [where tr = tr] queued_def writes_append)
  next
    case nn: Nil
    show ?thesis
    proof (cases "lowPriorityMessageChan s")
      case (Cons m rest)
      then show ?thesis using assms hn nn list_all_tl [OF assms(2)]
        by (simp add: writeLoop_turn_def writeLoop_notified_def WriteNebMessage_def
            Write_IoOk [where tr = tr] queued_def writes_append)
    next
      case Nil
      then show ?thesis using assms hn nn
        by (simp add: writeLoop_turn_def writeLoop_notified_def queued_def)
    qed
  qed
qed

lemma take_Suc_tl: "take (Suc k) xs = take 1 xs @ take k (tl xs)"
  by (cases xs) simp_all

lemma drain_ok:
  assumes "stream s = Some tr" and "list_all (\<lambda>r. r = IoOk) tr" and "k \<le> messageNotifChan s"
  shows "writes (trace (state_of (writeLoop_drain (replicate k TakeNotif) s)))
           = writes (trace s) @ map Content (take k (queued s))"
  using assms
proof (induction k arbitrary: s tr)
  case 0
  then show ?case by simp
next
  case (Suc k)
  from Suc.prems have pos: "0 < messageNotifChan s" by simp
  from turn_ok [OF Suc.prems(1) Suc.prems(2) pos] obtain s' tr' where
    t: "writeLoop_turn TakeNotif s = Ret True s'" and st: "stream s' = Some tr'"
    and ok: "list_all (\<lambda>r. r = IoOk) tr'" and n: "messageNotifChan s' = messageNotifChan s - 1"
    and q: "queued s' = tl (queued s)"
    and w: "writes (trace s') = writes (trace s) @ map Content (take 1 (queued s))"
    by blast
  have k: "k \<le> messageNotifChan s'" using Suc.prems(3) n by simp
  have "writes (trace (state_of (writeLoop_drain (replicate (Suc k) TakeNotif) s)))
          = writes (trace (state_of (writeLoop_drain (replicate k TakeNotif) s')))"
    by (simp add: t)
  also have "\<dots> = writes (trace s') @ map Content (take k (queued s'))"
    by (rule Suc.IH [OF st ok k])
  also have "\<dots> = writes (trace s) @ map Content (take (Suc k) (queued s))"
    unfolding w q take_Suc_tl [of k "queued s"] by simp
  finally show ?case .
qed


text \<open>
  C4. One notification taken by the write loop writes at most one message, and it is
  the head of the high-priority queue if that queue is not empty, else the head of the
  normal-priority queue, else the head of the low-priority queue; exactly that queue
  loses its head. With all three queues empty the notification is consumed and the
  trace does not grow. Consequently, over \<open>k\<close> notifications on a transport that
  accepts every write, the payloads written are the first \<open>k\<close> queued messages in the
  order high, normal, low: a queued HIGH message goes out before any queued NORMAL or
  LOW message.
\<close>

theorem writeLoop_strict_priority:
  "(0 < messageNotifChan s \<longrightarrow>
      (\<exists>t. trace (state_of (writeLoop_turn TakeNotif s)) = trace s @ t
         \<and> (case highPriorityMessageChan s @ normalPriorityMessageChan s @ lowPriorityMessageChan s of
               [] \<Rightarrow> t = []
             | m # rest \<Rightarrow> writes t = [] \<or> writes t = [Content m])
         \<and> highPriorityMessageChan (state_of (writeLoop_turn TakeNotif s)) = tl (highPriorityMessageChan s)
         \<and> normalPriorityMessageChan (state_of (writeLoop_turn TakeNotif s)) =
              (if highPriorityMessageChan s = [] then tl (normalPriorityMessageChan s)
               else normalPriorityMessageChan s)
         \<and> lowPriorityMessageChan (state_of (writeLoop_turn TakeNotif s)) =
              (if highPriorityMessageChan s = [] \<and> normalPriorityMessageChan s = []
               then tl (lowPriorityMessageChan s) else lowPriorityMessageChan s)
         \<and> messageNotifChan (state_of (writeLoop_turn TakeNotif s)) = messageNotifChan s - 1))
   \<and> (stream s = Some tr \<and> list_all (\<lambda>r. r = IoOk) tr \<and> k \<le> messageNotifChan s \<longrightarrow>
        writes (trace (state_of (writeLoop_drain (replicate k TakeNotif) s)))
          = writes (trace s) @
            map Content (take k (highPriorityMessageChan s @ normalPriorityMessageChan s
                                  @ lowPriorityMessageChan s)))"
  using turn_any [of s, unfolded queued_def] drain_ok [of s tr k, unfolded queued_def]
  by blast

theorem writeLoop_strict_priority_witness:
  "0 < messageNotifChan example_backlog
   \<and> stream example_backlog = Some [] \<and> list_all (\<lambda>r. r = IoOk) []
   \<and> 3 \<le> messageNotifChan example_backlog
   \<and> (\<exists>t. trace (state_of (writeLoop_turn TakeNotif example_backlog)) = trace example_backlog @ t
         \<and> writes t = [[1]]
         \<and> highPriorityMessageChan (state_of (writeLoop_turn TakeNotif example_backlog)) = []
         \<and> normalPriorityMessageChan (state_of (writeLoop_turn TakeNotif example_backlog)) =
              [example_frame ''tx'' [2]]
         \<and> lowPriorityMessageChan (state_of (writeLoop_turn TakeNotif example_backlog)) =
              [example_frame ''block'' [3]]
         \<and> messageNotifChan (state_of (writeLoop_turn TakeNotif example_backlog)) = 2)
   \<and> writes (trace (state_of (writeLoop_drain (replicate 3 TakeNotif) example_backlog)))
        = [[1], [2], [3]]"
proof -
  have n: "0 < messageNotifChan example_backlog"
    by (simp add: example_backlog_def)
  have h: "stream example_backlog = Some [] \<and> list_all (\<lambda>r. r = IoOk) []
             \<and> 3 \<le> messageNotifChan example_backlog"
    by (simp add: example_backlog_def example_stream_def newStreamInstance_def)
  have a: "writes (trace (state_of (writeLoop_drain (replicate 3 TakeNotif) example_backlog)))
        = [[1], [2], [3]]"
    using writeLoop_strict_priority [of example_backlog "[]" 3] h
    by (simp add: example_backlog_def example_stream_def newStreamInstance_def example_frame_def)
  have b: "\<exists>t. trace (state_of (writeLoop_turn TakeNotif example_backlog)) = trace example_backlog @ t
         \<and> writes t = [[1]]
         \<and> highPriorityMessageChan (state_of (writeLoop_turn TakeNotif example_backlog)) = []
         \<and> normalPriorityMessageChan (state_of (writeLoop_turn TakeNotif example_backlog)) =
              [example_frame ''tx'' [2]]
         \<and> lowPriorityMessageChan (state_of (writeLoop_turn TakeNotif example_backlog)) =
              [example_frame ''block'' [3]]
         \<and> messageNotifChan (state_of (writeLoop_turn TakeNotif example_backlog)) = 2"
    by (simp add: example_backlog_def example_stream_def newStreamInstance_def example_frame_def
        writeLoop_turn_def writeLoop_notified_def WriteNebMessage_def Write_def Let_def)
  show ?thesis using n h a b by blast
qed

subsection \<open>The handshake handlers\<close>

lemma finishHandshake_room:
  "handshakeSucceedCh s = 0 \<Longrightarrow>
     finishHandshake s = Ret () (s\<lparr>status := streamStatusHandshakeSucceed,
        handshakeSucceedCh := 1, trace := trace s @ [HandshakeSignal]\<rparr>)"
  by (simp add: finishHandshake_def Let_def)

text \<open>
  C5, as stated: every HELLO that passes validation is registered, sets the status,
  signals the barrier and is answered with OK. It fails once the barrier is full and the
  write loop has passed its only receive. Here the write loop has taken the signal of a
  first valid HELLO and gone on to its \<^verbatim>\<open>for\<close> loop, and a second valid HELLO has filled
  the barrier again: the handler of a third valid HELLO is parked in the send, the barrier
  has not been signalled and no OK has been written.
\<close>

theorem third_hello_stays_parked:
  "result_of (writeLoop_wait TakeHandshake
       (state_of (handleMessage example_env example_stream example_hello))) = Some True
   \<and> handshakeSucceedCh example_twice = 1
   \<and> parked (handleMessage example_env example_twice example_hello)
   \<and> signals (state_of (handleMessage example_env example_twice example_hello))
       = signals example_twice
   \<and> writes (trace (state_of (handleMessage example_env example_twice example_hello)))
       = writes (trace example_twice)"
  by (simp add: example_twice_def run_defs example_defs signals_def)

text \<open>
  C5, amended. A HELLO whose advertised node ID is the transport-reported peer ID and
  whose client version is the local one (compatibility is string equality), received
  while the handshake barrier has room, registers the stream with the route table
  (\<^verbatim>\<open>AddPeerStream\<close>), sets the status to HANDSHAKE_SUCCEEDED, signals the barrier and
  then replies through \<^verbatim>\<open>Ok\<close>, which writes the OK frame directly to the transport. A
  valid OK does the same and sends nothing. If the node ID or the version does not
  match, the handler returns \<^verbatim>\<open>ErrShouldCloseConnectionAndExitLoop\<close> and leaves the
  stream as it was: no registration, no status change, no signal.
\<close>

theorem handshake_handlers:
  "(HelloMessageFromProto e data = Some (pid_String s, ClientVersion) \<and> handshakeSucceedCh s = 0 \<longrightarrow>
      onHello e s data =
        Ok e (s\<lparr>status := streamStatusHandshakeSucceed, handshakeSucceedCh := 1,
                 trace := trace s @ [AddPeerStream, HandshakeSignal]\<rparr>))
   \<and> (Marshal_OK e = Some d \<and> NewNebMessage e OK d = Some m \<and> stream s = Some tr
        \<and> list_all (\<lambda>r. r = IoOk) tr \<longrightarrow>
      Ok e s = Ret None (s\<lparr>stream := Some (tl tr),
                 trace := trace s @ [SetWriteDeadline (write_deadline (length (Content m))),
                                     TransportWrite (Content m)]\<rparr>))
   \<and> (OKMessageFromProto e data = Some (pid_String s, ClientVersion) \<and> handshakeSucceedCh s = 0 \<longrightarrow>
      onOk e s data =
        Ret None (s\<lparr>status := streamStatusHandshakeSucceed, handshakeSucceedCh := 1,
                 trace := trace s @ [AddPeerStream, HandshakeSignal]\<rparr>))
   \<and> (HelloMessageFromProto e data = Some (NodeId, version)
        \<and> (NodeId \<noteq> pid_String s \<or> version \<noteq> ClientVersion) \<longrightarrow>
      onHello e s data = Ret (Some ErrShouldCloseConnectionAndExitLoop) s)
   \<and> (OKMessageFromProto e data = Some (NodeId, version)
        \<and> (NodeId \<noteq> pid_String s \<or> version \<noteq> ClientVersion) \<longrightarrow>
      onOk e s data = Ret (Some ErrShouldCloseConnectionAndExitLoop) s)
   \<and> CheckClientVersionCompatibility v1 v2 = (v1 = v2)"
proof -
  have a: "HelloMessageFromProto e data = Some (pid_String s, ClientVersion) \<and> handshakeSucceedCh s = 0 \<longrightarrow>
      onHello e s data =
        Ok e (s\<lparr>status := streamStatusHandshakeSucceed, handshakeSucceedCh := 1,
                 trace := trace s @ [AddPeerStream, HandshakeSignal]\<rparr>)"
    by (simp add: onHello_def CheckClientVersionCompatibility_def finishHandshake_room)
  have b: "Marshal_OK e = Some d \<and> NewNebMessage e OK d = Some m \<and> stream s = Some tr
        \<and> list_all (\<lambda>r. r = IoOk) tr \<longrightarrow>
      Ok e s = Ret None (s\<lparr>stream := Some (tl tr),
                 trace := trace s @ [SetWriteDeadline (write_deadline (length (Content m))),
                                     TransportWrite (Content m)]\<rparr>)"
    by (simp add: Ok_def WriteProtoMessage_def WriteMessage_def WriteNebMessage_def Write_IoOk)
  have c: "OKMessageFromProto e data = Some (pid_String s, ClientVersion) \<and> handshakeSucceedCh s = 0 \<longrightarrow>
      onOk e s data =
        Ret None (s\<lparr>status := streamStatusHandshakeSucceed, handshakeSucceedCh := 1,
                 trace := trace s @ [AddPeerStream, HandshakeSignal]\<rparr>)"
    by (simp add: onOk_def CheckClientVersionCompatibility_def finishHandshake_room)
  have d: "HelloMessageFromProto e data = Some (NodeId, version)
        \<and> (NodeId \<noteq> pid_String s \<or> version \<noteq> ClientVersion) \<longrightarrow>
      onHello e s data = Ret (Some ErrShouldCloseConnectionAndExitLoop) s"
    by (auto simp add: onHello_def CheckClientVersionCompatibility_def)
  have e: "OKMessageFromProto e data = Some (NodeId, version)
        \<and> (NodeId \<noteq> pid_String s \<or> version \<noteq> ClientVersion) \<longrightarrow>
      onOk e s data = Ret (Some ErrShouldCloseConnectionAndExitLoop) s"
    by (auto simp add: onOk_def CheckClientVersionCompatibility_def)
  show ?thesis using a b c d e by (simp add: CheckClientVersionCompatibility_def)
qed

theorem handshake_handlers_witness:
  "onHello example_env example_stream [1] =
      Ret None (example_handshaken\<lparr>trace := [AddPeerStream, HandshakeSignal,
          SetWriteDeadline 1000000000, TransportWrite [1]]\<rparr>)
   \<and> onOk example_env example_stream [1] = Ret None example_handshaken
   \<and> onHello example_env example_stream [2] = Ret (Some ErrShouldCloseConnectionAndExitLoop) example_stream
   \<and> onOk example_env example_stream [2] = Ret (Some ErrShouldCloseConnectionAndExitLoop) example_stream
   \<and> onHello (example_env\<lparr>HelloMessageFromProto := (\<lambda>b. Some (''other'', ''0.3.0''))\<rparr>) example_stream [1]
        = Ret (Some ErrShouldCloseConnectionAndExitLoop) example_stream"
proof -
  have p: "HelloMessageFromProto example_env [1] = Some (pid_String example_stream, ClientVersion)"
    "OKMessageFromProto example_env [1] = Some (pid_String example_stream, ClientVersion)"
    "handshakeSucceedCh example_stream = 0"
    by (simp_all add: example_env_def example_handshake_def example_stream_def
        newStreamInstance_def ClientVersion_def)
  have q: "HelloMessageFromProto example_env [2] = Some (''peer'', ''0.2.9'')"
    "OKMessageFromProto example_env [2] = Some (''peer'', ''0.2.9'')"
    "''0.2.9'' \<noteq> ClientVersion" "''other'' \<noteq> pid_String example_stream"
    by (simp_all add: example_env_def example_handshake_def ClientVersion_def
        example_stream_def newStreamInstance_def)
  have r: "Marshal_OK example_env = Some [1]"
    "NewNebMessage example_env OK [1] = Some (example_frame OK [1])"
    "stream example_handshaken = Some []" "list_all (\<lambda>r. r = IoOk) []"
    by (simp_all add: example_env_def example_handshaken_def example_stream_def newStreamInstance_def)
  have h1: "onHello example_env example_stream [1] = Ok example_env example_handshaken"
    using handshake_handlers [of example_env "[1]" example_stream] p
    by (simp add: example_handshaken_def example_stream_def newStreamInstance_def)
  have h2: "Ok example_env example_handshaken =
      Ret None (example_handshaken\<lparr>trace := [AddPeerStream, HandshakeSignal,
          SetWriteDeadline 1000000000, TransportWrite [1]]\<rparr>)"
    using handshake_handlers [of example_env "[1]" example_handshaken "[1]" "example_frame OK [1]" "[]"] r
    by (simp add: example_handshaken_def example_stream_def newStreamInstance_def example_frame_def
        write_deadline_def write_deadline_seconds_def)
  have h3: "onOk example_env example_stream [1] = Ret None example_handshaken"
    using handshake_handlers [of example_env "[1]" example_stream] p
    by (simp add: example_handshaken_def example_stream_def newStreamInstance_def)
  have h4: "onHello example_env example_stream [2] = Ret (Some ErrShouldCloseConnectionAndExitLoop) example_stream"
    using handshake_handlers [of example_env "[2]" example_stream _ _ _ "''peer''" "''0.2.9''"] q
    by simp
  have h5: "onOk example_env example_stream [2] = Ret (Some ErrShouldCloseConnectionAndExitLoop) example_stream"
    using handshake_handlers [of example_env "[2]" example_stream _ _ _ "''peer''" "''0.2.9''"] q
    by simp
  have h6: "onHello (example_env\<lparr>HelloMessageFromProto := (\<lambda>b. Some (''other'', ''0.3.0''))\<rparr>) example_stream [1]
        = Ret (Some ErrShouldCloseConnectionAndExitLoop) example_stream"
    using handshake_handlers [of "example_env\<lparr>HelloMessageFromProto := (\<lambda>b. Some (''other'', ''0.3.0''))\<rparr>"
        "[1]" example_stream _ _ _ "''other''" "''0.3.0''"] q
    by simp
  show ?thesis using h1 h2 h3 h4 h5 h6 by simp
qed

subsection \<open>Dispatch and the read loop\<close>

lemma signals_close: "signals (state_of (close s)) = signals s"
  by (simp add: signals_def close_def Let_def split: option.splits)

lemma signals_Write: "signals (state_of (Write s d)) = signals s"
proof (cases "stream s")
  case None
  then have w: "state_of (Write s d) = state_of (close s)"
    by (simp add: Write_def state_of_close_lift)
  show ?thesis unfolding w by (rule signals_close)
next
  case (Some tr)
  define r where "r = (case tr of [] \<Rightarrow> IoOk | r # rest \<Rightarrow> r)"
  define s2 where "s2 = s\<lparr>stream := Some (tl tr),
        trace := trace s @ [SetWriteDeadline (write_deadline (length d)), TransportWrite d]\<rparr>"
  show ?thesis
  proof (cases r)
    case IoOk
    then show ?thesis using Some by (simp add: Write_def Let_def r_def signals_def)
  next
    case IoDeadlineErr
    then show ?thesis using Some by (simp add: Write_def Let_def r_def signals_def)
  next
    case IoWriteErr
    then have w: "state_of (Write s d) = state_of (close s2)"
      using Some by (simp add: Write_def Let_def r_def s2_def state_of_close_lift)
    have "signals s2 = signals s" by (simp add: s2_def signals_def)
    then show ?thesis unfolding w by (simp add: signals_close)
  qed
qed

lemma signals_WriteProtoMessage: "signals (state_of (WriteProtoMessage e s name pb)) = signals s"
  by (simp add: WriteProtoMessage_def WriteMessage_def WriteNebMessage_def signals_Write
      split: option.splits)

lemma trace_SendProtoMessage: "trace (state_of (SendProtoMessage e s name pb p)) = trace s"
  by (simp add: SendProtoMessage_def SendMessage_def notify_def split: option.splits)

lemma signals_count_message: "signals (count_message s m) = signals s"
  by (simp add: signals_def count_message_def)

lemma signals_onHello:
  "signals (state_of (onHello e s data)) = signals s +
     (if HelloMessageFromProto e data = Some (pid_String s, ClientVersion) \<and> handshakeSucceedCh s = 0
      then 1 else 0)"
proof (cases "HelloMessageFromProto e data = Some (pid_String s, ClientVersion)")
  case False
  then show ?thesis
    by (auto simp add: onHello_def CheckClientVersionCompatibility_def split: option.splits)
next
  case True
  show ?thesis
  proof (cases "handshakeSucceedCh s = 0")
    case z: True
    then show ?thesis using True
      by (simp add: onHello_def CheckClientVersionCompatibility_def finishHandshake_room
          Ok_def signals_WriteProtoMessage) (simp add: signals_def)
  next
    case False
    then show ?thesis using True
      by (simp add: onHello_def CheckClientVersionCompatibility_def finishHandshake_def
          Let_def signals_def)
  qed
qed

lemma signals_onOk:
  "signals (state_of (onOk e s data)) = signals s +
     (if OKMessageFromProto e data = Some (pid_String s, ClientVersion) \<and> handshakeSucceedCh s = 0
      then 1 else 0)"
proof (cases "OKMessageFromProto e data = Some (pid_String s, ClientVersion)")
  case False
  then show ?thesis
    by (auto simp add: onOk_def CheckClientVersionCompatibility_def split: option.splits)
next
  case True
  then show ?thesis
    by (simp add: onOk_def CheckClientVersionCompatibility_def finishHandshake_def
          Let_def signals_def)
qed

lemma names_distinct: "HELLO \<noteq> OK" "HELLO \<noteq> BYE" "OK \<noteq> BYE"
  by (simp_all add: HELLO_def OK_def BYE_def)

text \<open>
  C6, as stated: no sequence of received HELLO and OK messages signals the handshake
  barrier a second time. It fails: the stream handles a valid HELLO, the write loop takes
  the signal from the barrier, a second valid HELLO arrives, and the barrier has been
  signalled twice.
\<close>

theorem barrier_signalled_twice:
  "signals (state_of (handleMessage example_env
      (state_of (writeLoop_wait TakeHandshake
         (state_of (handleMessage example_env example_stream example_hello))))
      example_hello)) = 2"
  by (simp add: run_defs example_defs signals_def)

lemma handleMessage_signals_step:
  "signals (state_of (handleMessage e s m)) = signals s +
     (if completes_handshake e s m \<and> handshakeSucceedCh s = 0 then 1 else 0)"
proof (cases "uncompress e m")
  case None
  then show ?thesis
    by (simp add: handleMessage_def completes_handshake_def signals_count_message)
next
  case (Some data)
  have c: "pid_String (count_message s m) = pid_String s"
    "handshakeSucceedCh (count_message s m) = handshakeSucceedCh s"
    by (simp_all add: count_message_def)
  consider (hello) "MessageName m = HELLO" | (ok) "MessageName m \<noteq> HELLO" "MessageName m = OK"
    | (other) "MessageName m \<noteq> HELLO" "MessageName m \<noteq> OK"
    by blast
  then show ?thesis
  proof cases
    case hello
    then show ?thesis using Some names_distinct
      by (simp add: handleMessage_def completes_handshake_def Let_def signals_onHello c
          signals_count_message)
  next
    case ok
    then show ?thesis using Some names_distinct
      by (simp add: handleMessage_def completes_handshake_def Let_def signals_onOk c
          signals_count_message)
  next
    case other
    have "signals (state_of (handleMessage e s m)) = signals s"
      using other Some
      by (simp add: handleMessage_def Let_def onBye_def onSyncRoute_def RouteTable_def
          onRouteTable_def signals_count_message split: option.splits)
         (simp add: signals_def trace_SendProtoMessage count_message_def)
    then show ?thesis using other Some by (simp add: completes_handshake_def)
  qed
qed

lemma same_barrier_refl: "same_barrier s s"
  by (simp add: same_barrier_def)

lemma same_barrier_trans: "same_barrier s s' \<Longrightarrow> same_barrier s' s'' \<Longrightarrow> same_barrier s s''"
  by (simp add: same_barrier_def)

lemma close_quiet: "same_barrier s (state_of (close s)) \<and> \<not> parked (close s)"
  by (simp add: same_barrier_def barrier_sends_def signals_def close_def Let_def split: option.splits)

lemma and_then_Ret_quiet:
  assumes "same_barrier s (state_of r) \<and> \<not> parked r"
  shows "same_barrier s (state_of (and_then r (\<lambda>x s'. Ret (g x) s')))
     \<and> \<not> parked (and_then r (\<lambda>x s'. Ret (g x) s'))"
  using assms by (cases r) simp_all

lemma Write_quiet: "same_barrier s (state_of (Write s d)) \<and> \<not> parked (Write s d)"
proof (cases "stream s")
  case None
  then have w: "Write s d = and_then (close s) (\<lambda>u s'. Ret (Some ErrStreamIsNotConnected) s')"
    by (simp add: Write_def)
  show ?thesis unfolding w by (rule and_then_Ret_quiet [OF close_quiet])
next
  case (Some tr)
  define r where "r = (case tr of [] \<Rightarrow> IoOk | r # rest \<Rightarrow> r)"
  define s2 where "s2 = s\<lparr>stream := Some (tl tr),
        trace := trace s @ [SetWriteDeadline (write_deadline (length d)), TransportWrite d]\<rparr>"
  have s2: "same_barrier s s2"
    by (simp add: s2_def same_barrier_def barrier_sends_def signals_def)
  show ?thesis
  proof (cases r)
    case IoOk
    then show ?thesis using Some
      by (simp add: Write_def Let_def r_def same_barrier_def barrier_sends_def signals_def)
  next
    case IoDeadlineErr
    then show ?thesis using Some
      by (simp add: Write_def Let_def r_def same_barrier_def barrier_sends_def signals_def)
  next
    case IoWriteErr
    then have w: "Write s d = and_then (close s2) (\<lambda>u s'. Ret (Some ErrCollaborator) s')"
      using Some by (simp add: Write_def Let_def r_def s2_def)
    have "same_barrier s (state_of (close s2)) \<and> \<not> parked (close s2)"
      using close_quiet [of s2] s2 same_barrier_trans by blast
    then show ?thesis unfolding w by (rule and_then_Ret_quiet)
  qed
qed

lemma WriteMessage_quiet:
  "same_barrier s (state_of (WriteMessage e s name d)) \<and> \<not> parked (WriteMessage e s name d)"
  using Write_quiet
  by (simp add: WriteMessage_def WriteNebMessage_def same_barrier_refl split: option.splits)

lemma WriteProtoMessage_quiet:
  "same_barrier s (state_of (WriteProtoMessage e s name pb))
     \<and> \<not> parked (WriteProtoMessage e s name pb)"
  using WriteMessage_quiet
  by (simp add: WriteProtoMessage_def same_barrier_refl split: option.splits)

lemma Bye_quiet: "same_barrier s (state_of (Bye e s)) \<and> \<not> parked (Bye e s)"
proof (cases "WriteMessage e s BYE []")
  case (Ret err s')
  then have "same_barrier s s'" using WriteMessage_quiet [of s e BYE "[]"] by simp
  then show ?thesis using Ret close_quiet [of s'] same_barrier_trans
    by (auto simp add: Bye_def)
next
  case (Blocked s')
  then show ?thesis using WriteMessage_quiet [of s e BYE "[]"] by (simp add: Bye_def)
next
  case (Parked s' k)
  then show ?thesis using WriteMessage_quiet [of s e BYE "[]"] by simp
qed

lemma SendMessage_quiet:
  "same_barrier s (state_of (SendMessage e s name d p)) \<and> \<not> parked (SendMessage e s name d p)"
  by (simp add: SendMessage_def notify_def same_barrier_def barrier_sends_def signals_def
      split: option.splits)

lemma Write_dropped_quiet:
  assumes "same_barrier s s1"
  shows "same_barrier s (state_of (and_then (Write s1 d) (\<lambda>err s'. Ret () s')))
      \<and> \<not> parked (and_then (Write s1 d) (\<lambda>err s'. Ret () s'))"
proof -
  have "same_barrier s (state_of (Write s1 d)) \<and> \<not> parked (Write s1 d)"
    using Write_quiet [of s1 d] same_barrier_trans [OF assms] by simp
  then show ?thesis by (rule and_then_Ret_quiet)
qed

lemma notified_quiet:
  "same_barrier s (state_of (writeLoop_notified s)) \<and> \<not> parked (writeLoop_notified s)"
proof (cases "highPriorityMessageChan s")
  case (Cons m rest)
  have a: "same_barrier s (s\<lparr>highPriorityMessageChan := rest\<rparr>)"
    by (simp add: same_barrier_def barrier_sends_def signals_def)
  show ?thesis using Cons Write_dropped_quiet [OF a, of "Content m"]
    by (simp add: writeLoop_notified_def WriteNebMessage_def)
next
  case hn: Nil
  show ?thesis
  proof (cases "normalPriorityMessageChan s")
    case (Cons m rest)
    have a: "same_barrier s (s\<lparr>normalPriorityMessageChan := rest\<rparr>)"
      by (simp add: same_barrier_def barrier_sends_def signals_def)
    show ?thesis using Cons hn Write_dropped_quiet [OF a, of "Content m"]
      by (simp add: writeLoop_notified_def WriteNebMessage_def)
  next
    case nn: Nil
    show ?thesis
    proof (cases "lowPriorityMessageChan s")
      case (Cons m rest)
      have a: "same_barrier s (s\<lparr>lowPriorityMessageChan := rest\<rparr>)"
        by (simp add: same_barrier_def barrier_sends_def signals_def)
      show ?thesis using Cons hn nn Write_dropped_quiet [OF a, of "Content m"]
        by (simp add: writeLoop_notified_def WriteNebMessage_def)
    next
      case Nil
      then show ?thesis using hn nn
        by (simp add: writeLoop_notified_def same_barrier_refl)
    qed
  qed
qed

lemma turn_quiet:
  "same_barrier s (state_of (writeLoop_turn c s)) \<and> \<not> parked (writeLoop_turn c s)"
proof (cases c)
  case TakeQuit
  then show ?thesis
    by (simp add: writeLoop_turn_def same_barrier_def barrier_sends_def signals_def)
next
  case TakeNotif
  define s1 where "s1 = s\<lparr>messageNotifChan := messageNotifChan s - 1\<rparr>"
  have a: "same_barrier s s1"
    by (simp add: s1_def same_barrier_def barrier_sends_def signals_def)
  have "same_barrier s (state_of (writeLoop_notified s1)) \<and> \<not> parked (writeLoop_notified s1)"
    using notified_quiet [of s1] a same_barrier_trans by blast
  then have "same_barrier s (state_of (and_then (writeLoop_notified s1) (\<lambda>u s'. Ret True s')))
     \<and> \<not> parked (and_then (writeLoop_notified s1) (\<lambda>u s'. Ret True s'))"
    by (rule and_then_Ret_quiet)
  then show ?thesis using TakeNotif
    by (simp add: writeLoop_turn_def s1_def same_barrier_refl)
qed

lemma wait_effect:
  "barrier_sends (state_of (writeLoop_wait c s)) = barrier_sends s
   \<and> pid_String (state_of (writeLoop_wait c s)) = pid_String s
   \<and> \<not> parked (writeLoop_wait c s)
   \<and> (handshakeSucceedCh s \<le> signals s \<longrightarrow>
        handshakeSucceedCh (state_of (writeLoop_wait c s)) \<le> signals (state_of (writeLoop_wait c s)))"
proof (cases c)
  case TakeHandshake
  then show ?thesis
    by (auto simp add: writeLoop_wait_def barrier_sends_def signals_def)
next
  case TakeQuitEarly
  then show ?thesis
    by (simp add: writeLoop_wait_def barrier_sends_def signals_def)
next
  case TakeTimeout
  have "same_barrier s (state_of (and_then (close s) (\<lambda>u s'. Ret False s')))
     \<and> \<not> parked (and_then (close s) (\<lambda>u s'. Ret False s'))"
    by (rule and_then_Ret_quiet [OF close_quiet])
  then show ?thesis using TakeTimeout
    by (simp add: writeLoop_wait_def same_barrier_def barrier_sends_def)
qed

lemma rest_of_not_parked: "\<not> parked r \<Longrightarrow> rest_of r = None"
  by (cases r) simp_all

lemma quiet_effect:
  assumes "same_barrier s (state_of r) \<and> \<not> parked r"
  shows "handler_effect 0 s r"
  using assms
  by (simp add: handler_effect_def same_barrier_def barrier_sends_def rest_of_not_parked)

lemma effect_cong:
  assumes "handler_effect n s1 r" and "barrier_sends s1 = barrier_sends s + d"
    and "pid_String s1 = pid_String s"
    and "handshakeSucceedCh s \<le> signals s \<longrightarrow> handshakeSucceedCh s1 \<le> signals s1"
  shows "handler_effect (n + d) s r"
  using assms by (auto simp add: handler_effect_def split: option.splits)

lemma Ok_quiet: "same_barrier s (state_of (Ok e s)) \<and> \<not> parked (Ok e s)"
  unfolding Ok_def by (rule WriteProtoMessage_quiet)

lemma onHello_effect:
  "handler_effect
     (if HelloMessageFromProto e data = Some (pid_String s, ClientVersion) then 1 else 0)
     s (onHello e s data)"
proof (cases "HelloMessageFromProto e data = Some (pid_String s, ClientVersion)")
  case False
  then have "onHello e s data = Ret (Some ErrShouldCloseConnectionAndExitLoop) s"
    by (auto simp add: onHello_def CheckClientVersionCompatibility_def split: option.splits)
  then show ?thesis using False by (simp add: handler_effect_def)
next
  case True
  show ?thesis
  proof (cases "handshakeSucceedCh s = 0")
    case z: True
    define s1 where "s1 = s\<lparr>status := streamStatusHandshakeSucceed, handshakeSucceedCh := 1,
        trace := trace s @ [AddPeerStream, HandshakeSignal]\<rparr>"
    have o: "onHello e s data = Ok e s1"
      using True z
      by (simp add: onHello_def CheckClientVersionCompatibility_def finishHandshake_def Let_def s1_def)
    have b: "barrier_sends s1 = barrier_sends s + 1" "pid_String s1 = pid_String s"
      "handshakeSucceedCh s \<le> signals s \<longrightarrow> handshakeSucceedCh s1 \<le> signals s1"
      by (simp_all add: s1_def barrier_sends_def signals_def)
    have "handler_effect (0 + 1) s (Ok e s1)"
      by (rule effect_cong [OF quiet_effect [OF Ok_quiet] b])
    then show ?thesis using True o by simp
  next
    case False
    define s1 where "s1 = s\<lparr>status := streamStatusHandshakeSucceed,
        handshakeSucceedCh_sendq := handshakeSucceedCh_sendq s + 1,
        trace := trace s @ [AddPeerStream]\<rparr>"
    have o: "onHello e s data = Parked s1 (\<lambda>s'. Ok e s')"
      using True False
      by (simp add: onHello_def CheckClientVersionCompatibility_def finishHandshake_def Let_def s1_def)
    have b: "barrier_sends s1 = barrier_sends s + 1" "pid_String s1 = pid_String s"
      "handshakeSucceedCh s1 = handshakeSucceedCh s" "signals s1 = signals s"
      by (simp_all add: s1_def barrier_sends_def signals_def)
    show ?thesis using True o b Ok_quiet by (simp add: handler_effect_def)
  qed
qed

lemma onOk_effect:
  "handler_effect
     (if OKMessageFromProto e data = Some (pid_String s, ClientVersion) then 1 else 0)
     s (onOk e s data)"
proof (cases "OKMessageFromProto e data = Some (pid_String s, ClientVersion)")
  case False
  then have "onOk e s data = Ret (Some ErrShouldCloseConnectionAndExitLoop) s"
    by (auto simp add: onOk_def CheckClientVersionCompatibility_def split: option.splits)
  then show ?thesis using False by (simp add: handler_effect_def)
next
  case True
  show ?thesis
  proof (cases "handshakeSucceedCh s = 0")
    case z: True
    then show ?thesis using True
      by (simp add: onOk_def CheckClientVersionCompatibility_def finishHandshake_def Let_def
          handler_effect_def barrier_sends_def signals_def)
  next
    case False
    then show ?thesis using True
      by (simp add: onOk_def CheckClientVersionCompatibility_def finishHandshake_def Let_def
          handler_effect_def barrier_sends_def signals_def same_barrier_def)
  qed
qed

lemma count_message_barrier:
  "barrier_sends (count_message s m) = barrier_sends s"
  "pid_String (count_message s m) = pid_String s"
  "signals (count_message s m) = signals s"
  "handshakeSucceedCh (count_message s m) = handshakeSucceedCh s"
  "handshakeSucceedCh_sendq (count_message s m) = handshakeSucceedCh_sendq s"
  by (simp_all add: count_message_def barrier_sends_def signals_def)

lemma other_handlers_quiet:
  assumes "MessageName m \<noteq> HELLO" and "MessageName m \<noteq> OK" and "uncompress e m = Some data"
  shows "same_barrier s (state_of (handleMessage e s m)) \<and> \<not> parked (handleMessage e s m)"
proof -
  have c: "same_barrier s (count_message s m)"
    by (simp add: same_barrier_def count_message_barrier)
  have r: "same_barrier s (state_of (RouteTable e (count_message s m)))
      \<and> \<not> parked (RouteTable e (count_message s m))"
    using SendMessage_quiet [of "count_message s m" e ROUTETABLE _ MessagePriorityHigh] c
    by (auto simp add: RouteTable_def SendProtoMessage_def same_barrier_def split: option.splits)
  have t: "same_barrier s (count_message s m\<lparr>trace := trace (count_message s m) @ [AddPeers x]\<rparr>)"
    "same_barrier s (count_message s m\<lparr>trace := trace (count_message s m) @
        [PutMessage y z w, RecordRecvMessage v]\<rparr>)" for x y z w v
    using c by (simp_all add: same_barrier_def barrier_sends_def signals_def)
  show ?thesis using assms c r t
    by (simp add: handleMessage_def Let_def onBye_def onSyncRoute_def onRouteTable_def
        split: option.splits)
qed

lemma handleMessage_effect:
  "handler_effect (if completes_handshake e s m then 1 else 0) s (handleMessage e s m)"
proof (cases "uncompress e m")
  case None
  then show ?thesis
    by (simp add: handleMessage_def completes_handshake_def handler_effect_def count_message_barrier)
next
  case (Some data)
  consider (hello) "MessageName m = HELLO" | (ok) "MessageName m \<noteq> HELLO" "MessageName m = OK"
    | (other) "MessageName m \<noteq> HELLO" "MessageName m \<noteq> OK"
    by blast
  then show ?thesis
  proof cases
    case hello
    have h: "handleMessage e s m = onHello e (count_message s m) data"
      using hello Some by (simp add: handleMessage_def Let_def)
    have "handler_effect
       ((if HelloMessageFromProto e data = Some (pid_String (count_message s m), ClientVersion)
         then 1 else 0) + 0) s (onHello e (count_message s m) data)"
      by (rule effect_cong [OF onHello_effect]) (simp_all add: count_message_barrier)
    then show ?thesis using hello Some names_distinct
      by (simp add: h completes_handshake_def count_message_barrier)
  next
    case ok
    have h: "handleMessage e s m = onOk e (count_message s m) data"
      using ok Some by (simp add: handleMessage_def Let_def)
    have "handler_effect
       ((if OKMessageFromProto e data = Some (pid_String (count_message s m), ClientVersion)
         then 1 else 0) + 0) s (onOk e (count_message s m) data)"
      by (rule effect_cong [OF onOk_effect]) (simp_all add: count_message_barrier)
    then show ?thesis using ok Some names_distinct
      by (simp add: h completes_handshake_def count_message_barrier)
  next
    case other
    have "handler_effect 0 s (handleMessage e s m)"
      by (rule quiet_effect [OF other_handlers_quiet [OF other Some]])
    then show ?thesis using other Some by (simp add: completes_handshake_def)
  qed
qed

lemma settled_quiet:
  assumes "settled (s, p)" and "same_barrier s (state_of r) \<and> \<not> parked r"
  shows "settled (state_of r, p) \<and> pid_String (state_of r) = pid_String s
      \<and> barrier_sends (state_of r) \<le> barrier_sends s"
  using assms
  by (simp add: settled_def same_barrier_def barrier_sends_def split: option.splits)

lemma step_bound:
  assumes "settled c"
  shows "settled (step e ev c) \<and> pid_String (fst (step e ev c)) = pid_String (fst c)
     \<and> barrier_sends (fst (step e ev c))
         \<le> barrier_sends (fst c) + length (filter (completes_handshake e (fst c)) (handled [ev]))"
proof -
  obtain s p where c: "c = (s, p)" by (cases c)
  have sp: "settled (s, p)" using assms c by simp
  show ?thesis
  proof (cases ev)
    case (Handle m)
    show ?thesis
    proof (cases p)
      case None
      then show ?thesis using c Handle sp handleMessage_effect [of e s m]
        by (auto simp add: handler_effect_def settled_def split: option.splits if_splits)
    next
      case (Some k)
      then show ?thesis using c Handle assms by simp
    qed
  next
    case Resume
    show ?thesis
    proof (cases p)
      case None
      then show ?thesis using c Resume assms by simp
    next
      case (Some k)
      then have k: "same_barrier s (state_of (k s)) \<and> \<not> parked (k s)"
        using sp by (simp add: settled_def)
      have n: "settled (s, None)" using sp by (simp add: settled_def)
      show ?thesis
      proof (cases "handshakeSucceedCh_sendq s = 0")
        case True
        then show ?thesis using c Resume Some settled_quiet [OF n k] k
          by (simp add: rest_of_not_parked)
      next
        case False
        then show ?thesis using c Resume Some assms by simp
      qed
    qed
  next
    case SayBye
    show ?thesis
    proof (cases p)
      case None
      then show ?thesis using c SayBye settled_quiet [OF sp Bye_quiet [of s e]] by simp
    next
      case (Some k)
      then show ?thesis using c SayBye assms by simp
    qed
  next
    case (Wait w)
    then show ?thesis using c sp wait_effect [of w s]
      by (simp add: settled_def split: option.splits)
  next
    case (Turn d)
    then show ?thesis using c settled_quiet [OF sp turn_quiet [of s d]] by simp
  next
    case Close
    then show ?thesis using c settled_quiet [OF sp close_quiet [of s]] by simp
  next
    case (Send n d pr)
    then show ?thesis using c settled_quiet [OF sp SendMessage_quiet [of s e n d pr]] by simp
  qed
qed

lemma completes_handshake_pid:
  "pid_String s' = pid_String s \<Longrightarrow> completes_handshake e s' = completes_handshake e s"
  by (rule ext) (simp add: completes_handshake_def split: option.splits)

lemma handled_Cons: "handled (ev # evs) = handled [ev] @ handled evs"
  by (cases ev) simp_all

lemma run_bound:
  assumes "settled c"
  shows "settled (run e evs c) \<and> pid_String (fst (run e evs c)) = pid_String (fst c)
     \<and> barrier_sends (fst (run e evs c))
     \<le> barrier_sends (fst c) + length (filter (completes_handshake e (fst c)) (handled evs))"
  using assms
proof (induction evs arbitrary: c)
  case Nil
  then show ?case by simp
next
  case (Cons ev evs)
  from step_bound [OF Cons.prems, of e ev] have
    s: "settled (step e ev c)" and p: "pid_String (fst (step e ev c)) = pid_String (fst c)"
    and b: "barrier_sends (fst (step e ev c))
         \<le> barrier_sends (fst c) + length (filter (completes_handshake e (fst c)) (handled [ev]))"
    by simp_all
  from Cons.IH [OF s] have
    s': "settled (run e evs (step e ev c))"
    and p': "pid_String (fst (run e evs (step e ev c))) = pid_String (fst (step e ev c))"
    and b': "barrier_sends (fst (run e evs (step e ev c))) \<le> barrier_sends (fst (step e ev c))
       + length (filter (completes_handshake e (fst (step e ev c))) (handled evs))"
    by simp_all
  have "barrier_sends (fst (run e (ev # evs) c)) = barrier_sends (fst (run e evs (step e ev c)))"
    by simp
  also have "\<dots> \<le> barrier_sends (fst (step e ev c))
       + length (filter (completes_handshake e (fst (step e ev c))) (handled evs))"
    by (rule b')
  also have "\<dots> = barrier_sends (fst (step e ev c))
       + length (filter (completes_handshake e (fst c)) (handled evs))"
    by (simp only: completes_handshake_pid [OF p])
  also have "\<dots> \<le> barrier_sends (fst c)
       + length (filter (completes_handshake e (fst c)) (handled [ev]))
       + length (filter (completes_handshake e (fst c)) (handled evs))"
    using b by simp
  also have "\<dots> = barrier_sends (fst c)
       + length (filter (completes_handshake e (fst c)) (handled (ev # evs)))"
    by (simp add: handled_Cons [of ev evs])
  finally have "barrier_sends (fst (run e (ev # evs) c)) \<le> barrier_sends (fst c)
       + length (filter (completes_handshake e (fst c)) (handled (ev # evs)))" .
  then show ?case using s' p' p by simp
qed

lemma run_append: "run e (xs @ ys) c = run e ys (run e xs c)"
  by (induction xs arbitrary: c) simp_all

lemma new_stream_settled: "settled (newStreamInstance pstr ppretty tr, None)"
  by (simp add: settled_def signals_def newStreamInstance_def)

lemma new_stream_barrier: "barrier_sends (newStreamInstance pstr ppretty tr) = 0"
  by (simp add: barrier_sends_def signals_def newStreamInstance_def)

lemma before_the_handshake:
  assumes "filter (completes_handshake e (newStreamInstance pstr ppretty tr)) (handled evs) = []"
  shows "\<exists>s. run e evs (newStreamInstance pstr ppretty tr, None) = (s, None)
     \<and> signals s = 0 \<and> handshakeSucceedCh s = 0
     \<and> pid_String s = pid_String (newStreamInstance pstr ppretty tr)"
proof -
  obtain s p where r: "run e evs (newStreamInstance pstr ppretty tr, None) = (s, p)"
    by (cases "run e evs (newStreamInstance pstr ppretty tr, None)")
  from run_bound [OF new_stream_settled, of e evs pstr ppretty tr] assms r
  have st: "settled (s, p)" and pid: "pid_String s = pid_String (newStreamInstance pstr ppretty tr)"
    and b: "barrier_sends s = 0"
    by (simp_all add: new_stream_barrier)
  from b have z: "signals s = 0" by (simp add: barrier_sends_def)
  from st b have "p = None" by (cases p) (simp_all add: settled_def)
  moreover from st z have "handshakeSucceedCh s = 0" by (simp add: settled_def)
  ultimately show ?thesis using r z pid by simp
qed

text \<open>
  C6, amended. Along every execution of a stream created by \<^verbatim>\<open>newStreamInstance\<close>
  (frames handled by the read loop, its resumption after a parked send, BYE, the steps of
  the write loop, \<^verbatim>\<open>close\<close> and \<^verbatim>\<open>SendMessage\<close> in any order) the handshake barrier is
  signalled at most as many times as HELLO and OK messages that pass validation have been
  handed to \<^verbatim>\<open>handleMessage\<close>: no other message signals it, and a stream that receives at
  most one valid handshake message never has its barrier signalled a second time. The
  first valid handshake message of an execution brings the count to exactly one.
\<close>

theorem barrier_signals_bounded:
  "signals (fst (run e evs (newStreamInstance pstr ppretty tr, None)))
     \<le> length (filter (completes_handshake e (newStreamInstance pstr ppretty tr)) (handled evs))
   \<and> (filter (completes_handshake e (newStreamInstance pstr ppretty tr)) (handled evs) = []
        \<and> completes_handshake e (newStreamInstance pstr ppretty tr) m \<longrightarrow>
        signals (fst (run e (evs @ [Handle m]) (newStreamInstance pstr ppretty tr, None))) = 1)"
proof -
  have "signals (fst (run e evs (newStreamInstance pstr ppretty tr, None)))
      \<le> barrier_sends (fst (run e evs (newStreamInstance pstr ppretty tr, None)))"
    by (simp add: barrier_sends_def)
  also have "\<dots> \<le> barrier_sends (fst (newStreamInstance pstr ppretty tr,
        None :: (Stream \<Rightarrow> error option res) option))
      + length (filter (completes_handshake e (fst (newStreamInstance pstr ppretty tr,
          None :: (Stream \<Rightarrow> error option res) option))) (handled evs))"
    using run_bound [OF new_stream_settled, of e evs pstr ppretty tr] by simp
  finally have a: "signals (fst (run e evs (newStreamInstance pstr ppretty tr, None)))
     \<le> length (filter (completes_handshake e (newStreamInstance pstr ppretty tr)) (handled evs))"
    by (simp add: new_stream_barrier)
  have b: "signals (fst (run e (evs @ [Handle m]) (newStreamInstance pstr ppretty tr, None))) = 1"
    if n: "filter (completes_handshake e (newStreamInstance pstr ppretty tr)) (handled evs) = []"
      and v: "completes_handshake e (newStreamInstance pstr ppretty tr) m"
  proof -
    from before_the_handshake [OF n] obtain s where
      r: "run e evs (newStreamInstance pstr ppretty tr, None) = (s, None)"
      and z: "signals s = 0" "handshakeSucceedCh s = 0"
      and pid: "pid_String s = pid_String (newStreamInstance pstr ppretty tr)"
      by blast
    have v': "completes_handshake e s m"
      using v completes_handshake_pid [OF pid, of e] by simp
    show ?thesis
      using handleMessage_signals_step [of e s m] v' z by (simp add: run_append r)
  qed
  show ?thesis using a b by blast
qed

theorem barrier_signals_bounded_witness:
  "signals (fst (run example_env [Handle example_garbled, Handle example_hello, Wait TakeHandshake]
       (example_stream, None))) = 1
   \<and> filter (completes_handshake example_env example_stream) (handled [Handle example_garbled]) = []
   \<and> completes_handshake example_env example_stream example_hello
   \<and> signals (fst (run example_env ([Handle example_garbled] @ [Handle example_hello])
       (example_stream, None))) = 1"
proof -
  have c: "completes_handshake example_env (newStreamInstance ''peer'' ''peer'' (Some [])) example_hello"
    "\<not> completes_handshake example_env (newStreamInstance ''peer'' ''peer'' (Some [])) example_garbled"
    by (simp_all add: completes_handshake_def uncompress_def example_defs)
  have l: "length (filter (completes_handshake example_env (newStreamInstance ''peer'' ''peer'' (Some [])))
       (handled [Handle example_garbled, Handle example_hello, Wait TakeHandshake])) = 1"
    using c by simp
  have r: "1 \<le> signals (fst (run example_env
       [Handle example_garbled, Handle example_hello, Wait TakeHandshake]
       (newStreamInstance ''peer'' ''peer'' (Some []), None)))"
    by (simp add: run_defs example_defs signals_def)
  have one: "signals (fst (run example_env
       [Handle example_garbled, Handle example_hello, Wait TakeHandshake]
       (newStreamInstance ''peer'' ''peer'' (Some []), None))) = 1"
    using barrier_signals_bounded [of example_env
        "[Handle example_garbled, Handle example_hello, Wait TakeHandshake]"
        "''peer''" "''peer''" "Some []"] l r
    by simp
  have two: "signals (fst (run example_env ([Handle example_garbled] @ [Handle example_hello])
       (newStreamInstance ''peer'' ''peer'' (Some []), None))) = 1"
    using barrier_signals_bounded [of example_env "[Handle example_garbled]"
        "''peer''" "''peer''" "Some []" example_hello] c
    by simp
  show ?thesis using one two c by (simp add: example_stream_def)
qed

text \<open>
  A handler parked on the full barrier goes on when the write loop receives: the parked
  send goes through as the second signal, and the resumed handler writes its OK reply.
\<close>

lemma parked_handler_goes_on:
  "parked (handleMessage example_env example_handshaken example_hello)
   \<and> signals (state_of (handleMessage example_env example_handshaken example_hello)) = 1
   \<and> signals (state_of (writeLoop_wait TakeHandshake
        (state_of (handleMessage example_env example_handshaken example_hello)))) = 2
   \<and> writes (trace (state_of (resume (handleMessage example_env example_handshaken example_hello)
        (state_of (writeLoop_wait TakeHandshake
           (state_of (handleMessage example_env example_handshaken example_hello))))))) = [[1]]"
  by (simp add: run_defs example_defs signals_def)

lemma close_fresh:
  assumes "\<not> locked s" and "status s \<noteq> streamStatusClosed" and "quitWriteCh s = 0"
    and "stream s = Some tr"
  shows "close s = Ret () (s\<lparr>status := streamStatusClosed, quitWriteCh := 1,
           trace := trace s @ [RemoveStream, RemovePeerStream, QuitSignal, TransportClose]\<rparr>)"
  using assms by (simp add: close_def Let_def)

lemma Bye_attached:
  assumes "NewNebMessage e BYE [] = Some b" and "stream s = Some tr"
    and "list_all (\<lambda>r. r = IoOk) tr" and "\<not> locked s"
    and "status s \<noteq> streamStatusClosed" and "quitWriteCh s = 0"
  shows "Bye e s = Ret () (s\<lparr>stream := Some (tl tr), status := streamStatusClosed,
           quitWriteCh := 1,
           trace := trace s @ [SetWriteDeadline (write_deadline (length (Content b))),
             TransportWrite (Content b), RemoveStream, RemovePeerStream, QuitSignal,
             TransportClose]\<rparr>)"
proof -
  define s1 where "s1 = s\<lparr>stream := Some (tl tr),
      trace := trace s @ [SetWriteDeadline (write_deadline (length (Content b))),
                          TransportWrite (Content b)]\<rparr>"
  have w: "WriteMessage e s BYE [] = Ret None s1"
    using assms(1) Write_IoOk [OF assms(2) assms(3)]
    by (simp add: WriteMessage_def WriteNebMessage_def s1_def)
  have c: "close s1 = Ret () (s1\<lparr>status := streamStatusClosed, quitWriteCh := 1,
           trace := trace s1 @ [RemoveStream, RemovePeerStream, QuitSignal, TransportClose]\<rparr>)"
    by (rule close_fresh [where tr = "tl tr"]) (use assms in \<open>simp_all add: s1_def\<close>)
  show ?thesis by (simp add: Bye_def w c) (simp add: s1_def)
qed

lemma handleMessage_unhandshaken:
  assumes "status s \<noteq> streamStatusHandshakeSucceed" and "MessageName m \<noteq> HELLO"
    and "MessageName m \<noteq> OK" and "MessageName m \<noteq> BYE" and "uncompress e m = Some data"
  shows "handleMessage e s m = Ret (Some ErrShouldCloseConnectionAndExitLoop) (count_message s m)"
  using assms by (simp add: handleMessage_def Let_def count_message_def)

lemma handleMessage_uncompress_failed:
  assumes "uncompress e m = None"
  shows "handleMessage e s m = Ret (Some ErrUncompressMessageFailed) (count_message s m)"
  using assms by (simp add: handleMessage_def Let_def)

text \<open>
  C1, as stated: before the handshake has succeeded, every message other than HELLO, OK
  and BYE makes \<^verbatim>\<open>handleMessage\<close> return \<^verbatim>\<open>ErrShouldCloseConnectionAndExitLoop\<close> and the
  read loop send BYE and exit. It fails for a SYNCROUTE frame with the compression flag
  set and a payload that does not decompress, on a stream in status INIT:
  \<^verbatim>\<open>handleMessage\<close> returns \<^verbatim>\<open>ErrUncompressMessageFailed\<close>, and the read loop goes back
  to reading with the status still INIT and nothing sent or torn down.
\<close>

theorem garbled_message_keeps_connection:
  "status example_stream = streamStatusInit
   \<and> handleMessage example_env example_stream example_garbled
       = Ret (Some ErrUncompressMessageFailed) (count_message example_stream example_garbled)
   \<and> readLoop_frames example_env example_stream [Frame example_garbled]
       = Blocked (count_message example_stream example_garbled)
   \<and> status (count_message example_stream example_garbled) = streamStatusInit
   \<and> trace (count_message example_stream example_garbled) = []"
proof -
  have u: "uncompress example_env example_garbled = None"
    by (simp add: uncompress_def example_defs)
  show ?thesis
    by (simp add: handleMessage_uncompress_failed [OF u])
       (simp add: count_message_def example_stream_def newStreamInstance_def)
qed

text \<open>
  C1, amended. On a stream whose status is not HANDSHAKE_SUCCEEDED, a message other than
  HELLO, OK and BYE whose payload is not flagged as compressed, or decompresses, makes
  \<^verbatim>\<open>handleMessage\<close> return \<^verbatim>\<open>ErrShouldCloseConnectionAndExitLoop\<close>, and the read loop
  then runs \<^verbatim>\<open>Bye\<close> and exits. \<^verbatim>\<open>Bye\<close> on an attached transport that accepts the write,
  on a stream not yet closed, writes the BYE frame and then closes: status CLOSED, both
  deregistrations, the quit signal and the transport's \<^verbatim>\<open>Close\<close>.
\<close>

theorem unhandshaken_message_closes:
  "(status s \<noteq> streamStatusHandshakeSucceed \<and> MessageName m \<noteq> HELLO \<and> MessageName m \<noteq> OK
      \<and> MessageName m \<noteq> BYE \<and> uncompress e m = Some data \<longrightarrow>
        handleMessage e s m = Ret (Some ErrShouldCloseConnectionAndExitLoop) (count_message s m)
      \<and> readLoop_frames e s (Frame m # rest) = Bye e (count_message s m))
   \<and> (NewNebMessage e BYE [] = Some b \<and> stream s' = Some tr \<and> list_all (\<lambda>r. r = IoOk) tr
        \<and> \<not> locked s' \<and> status s' \<noteq> streamStatusClosed \<and> quitWriteCh s' = 0 \<longrightarrow>
        Bye e s' = Ret () (s'\<lparr>stream := Some (tl tr), status := streamStatusClosed,
           quitWriteCh := 1,
           trace := trace s' @ [SetWriteDeadline (write_deadline (length (Content b))),
             TransportWrite (Content b), RemoveStream, RemovePeerStream, QuitSignal,
             TransportClose]\<rparr>))"
  using handleMessage_unhandshaken [of s m e data] Bye_attached [of e b s' tr]
  by simp

theorem unhandshaken_message_closes_witness:
  "handleMessage example_env example_stream (example_frame SYNCROUTE [])
     = Ret (Some ErrShouldCloseConnectionAndExitLoop)
         (count_message example_stream (example_frame SYNCROUTE []))
   \<and> readLoop_frames example_env example_stream [Frame (example_frame SYNCROUTE [])]
     = Bye example_env (count_message example_stream (example_frame SYNCROUTE []))
   \<and> status (state_of (Bye example_env (count_message example_stream (example_frame SYNCROUTE []))))
     = streamStatusClosed
   \<and> trace (state_of (Bye example_env (count_message example_stream (example_frame SYNCROUTE []))))
     = [SetWriteDeadline 1000000000, TransportWrite [], RemoveStream, RemovePeerStream,
        QuitSignal, TransportClose]"
proof -
  have h: "status example_stream \<noteq> streamStatusHandshakeSucceed
      \<and> MessageName (example_frame SYNCROUTE []) \<noteq> HELLO
      \<and> MessageName (example_frame SYNCROUTE []) \<noteq> OK
      \<and> MessageName (example_frame SYNCROUTE []) \<noteq> BYE
      \<and> uncompress example_env (example_frame SYNCROUTE []) = Some []"
    by (simp add: uncompress_def example_defs)
  have g: "NewNebMessage example_env BYE [] = Some (example_frame BYE [])
      \<and> stream (count_message example_stream (example_frame SYNCROUTE [])) = Some []
      \<and> list_all (\<lambda>r. r = IoOk) []
      \<and> \<not> locked (count_message example_stream (example_frame SYNCROUTE []))
      \<and> status (count_message example_stream (example_frame SYNCROUTE [])) \<noteq> streamStatusClosed
      \<and> quitWriteCh (count_message example_stream (example_frame SYNCROUTE [])) = 0"
    by (simp add: count_message_def example_env_def example_stream_def newStreamInstance_def)
  have t: "trace (count_message example_stream (example_frame SYNCROUTE [])) = []"
    "Content (example_frame BYE []) = []" "write_deadline (length ([] :: bytes)) = 1000000000"
    by (simp_all add: count_message_def example_stream_def newStreamInstance_def example_frame_def
        write_deadline_def write_deadline_seconds_def)
  show ?thesis
    using unhandshaken_message_closes [of example_stream "example_frame SYNCROUTE []" example_env
        "[]" "[]" "example_frame BYE []" "count_message example_stream (example_frame SYNCROUTE [])" "[]"]
      h g t
    by simp
qed

text \<open>
  C7, as stated: every error returned to the read loop ends the loop and closes the
  connection, \<^verbatim>\<open>ErrUncompressMessageFailed\<close> in particular. It fails: after a frame that
  does not decompress the loop handles the next frame, here a valid HELLO, and ends up
  waiting for more input with the handshake done and nothing closed.
\<close>

theorem uncompress_failure_is_ignored:
  "handleMessage example_env example_stream example_garbled
       = Ret (Some ErrUncompressMessageFailed) (count_message example_stream example_garbled)
   \<and> status (state_of (readLoop_frames example_env example_stream
        [Frame example_garbled, Frame example_hello])) = streamStatusHandshakeSucceed
   \<and> trace (state_of (readLoop_frames example_env example_stream
        [Frame example_garbled, Frame example_hello]))
       = [AddPeerStream, HandshakeSignal, SetWriteDeadline 1000000000, TransportWrite [1]]"
  by (simp add: run_defs example_defs)

text \<open>
  C7, amended. The read loop ends on a transport read error (\<^verbatim>\<open>close\<close>), on a header or
  payload that does not parse and on a foreign chain ID (\<^verbatim>\<open>Bye\<close>), and when
  \<^verbatim>\<open>handleMessage\<close> returns \<^verbatim>\<open>ErrShouldCloseConnectionAndExitLoop\<close> (\<^verbatim>\<open>Bye\<close>). Any other
  result of \<^verbatim>\<open>handleMessage\<close>, an error included, lets the loop go on with the next
  frame; in particular a payload that fails to decompress yields
  \<^verbatim>\<open>ErrUncompressMessageFailed\<close>, the frame is dropped and the loop continues.
\<close>

theorem readLoop_exit_policy:
  "readLoop_frames e s (ReadError # rest) = close s
   \<and> readLoop_frames e s (BadHeader # rest) = Bye e s
   \<and> readLoop_frames e s (BadChainID # rest) = Bye e s
   \<and> readLoop_frames e s (BadData # rest) = Bye e s
   \<and> (handleMessage e s m = Ret (Some ErrShouldCloseConnectionAndExitLoop) s' \<longrightarrow>
        readLoop_frames e s (Frame m # rest) = Bye e s')
   \<and> (handleMessage e s m = Ret err s' \<and> err \<noteq> Some ErrShouldCloseConnectionAndExitLoop \<longrightarrow>
        readLoop_frames e s (Frame m # rest) = readLoop_frames e s' rest)
   \<and> (uncompress e m = None \<longrightarrow>
        handleMessage e s m = Ret (Some ErrUncompressMessageFailed) (count_message s m)
        \<and> readLoop_frames e s (Frame m # rest) = readLoop_frames e (count_message s m) rest)"
  using handleMessage_uncompress_failed [of e m s] by simp

theorem readLoop_exit_policy_witness:
  "readLoop_frames example_env example_stream (Frame (example_frame BYE []) # [Frame example_hello])
       = Bye example_env (count_message example_stream (example_frame BYE []))
   \<and> readLoop_frames example_env example_stream (Frame example_garbled # [Frame (example_frame BYE [])])
       = Bye example_env (count_message (count_message example_stream example_garbled)
           (example_frame BYE []))"
proof -
  have u: "uncompress example_env example_garbled = None"
    by (simp add: uncompress_def example_defs)
  have b: "handleMessage example_env s (example_frame BYE [])
      = Ret (Some ErrShouldCloseConnectionAndExitLoop) (count_message s (example_frame BYE []))" for s
    by (simp add: handleMessage_def uncompress_def onBye_def Let_def example_defs)
  have one: "readLoop_frames example_env example_stream (Frame (example_frame BYE []) # [Frame example_hello])
       = Bye example_env (count_message example_stream (example_frame BYE []))"
    using readLoop_exit_policy [of example_env example_stream "[Frame example_hello]"
        "example_frame BYE []" "count_message example_stream (example_frame BYE [])"] b
    by simp
  have two: "readLoop_frames example_env example_stream (Frame example_garbled # [Frame (example_frame BYE [])])
       = readLoop_frames example_env (count_message example_stream example_garbled)
           [Frame (example_frame BYE [])]"
    using readLoop_exit_policy [of example_env example_stream "[Frame (example_frame BYE [])]"
        example_garbled] u
    by simp
  show ?thesis using one two b by simp
qed

text \<open>
  C2. The status is meant to move only forward, with CLOSED final. The code does not
  keep to it. Here the write loop's handshake timeout closes the example stream while a
  valid HELLO of the peer is still to be handled: \<^verbatim>\<open>finishHandshake\<close> overwrites CLOSED
  with HANDSHAKE_SUCCEEDED, and the next \<^verbatim>\<open>close\<close> runs the teardown a second time and
  then waits forever on the full quit channel with the mutex held.
\<close>

theorem closed_status_overwritten:
  "status (state_of (writeLoop_wait TakeTimeout example_stream)) = streamStatusClosed
   \<and> status (state_of (handleMessage example_env
        (state_of (writeLoop_wait TakeTimeout example_stream)) example_hello))
       = streamStatusHandshakeSucceed
   \<and> trace (state_of (close (state_of (handleMessage example_env
        (state_of (writeLoop_wait TakeTimeout example_stream)) example_hello))))
       = [RemoveStream, RemovePeerStream, QuitSignal, TransportClose,
          AddPeerStream, HandshakeSignal, SetWriteDeadline 1000000000, TransportWrite [1],
          RemoveStream, RemovePeerStream]
   \<and> locked (state_of (close (state_of (handleMessage example_env
        (state_of (writeLoop_wait TakeTimeout example_stream)) example_hello))))"
  by (simp add: run_defs example_defs)

end
